theory Spec2Isabelle
  imports Main "HOL-Library.Word"
begin

section \<open>Client-side network interception model (client/network.ts)\<close>

text \<open>
  A shallow embedding of \<^verbatim>\<open>packages/playwright-core/src/client/network.ts\<close>:
  \<^verbatim>\<open>RawHeaders\<close>, \<^verbatim>\<open>Request\<close>, \<^verbatim>\<open>Route\<close>, \<^verbatim>\<open>RouteHandler\<close> and
  \<^verbatim>\<open>WebSocketRoute\<close>.

  Conventions.
  \<^item> A JavaScript string is a \<open>string\<close> holding its UTF-8 bytes, so that
    \<^verbatim>\<open>Buffer.byteLength(s)\<close> is \<open>length s\<close>. \<^verbatim>\<open>toLowerCase\<close> maps the ASCII
    letters \<^verbatim>\<open>A-Z\<close> only (header names are ASCII tokens).
  \<^item> A \<^verbatim>\<open>Buffer\<close> is a list of bytes (\<open>8 word\<close>).
  \<^item> An optional property (\<^verbatim>\<open>x?: T\<close>) is a \<open>T option\<close>, \<open>None\<close> for \<^verbatim>\<open>undefined\<close>.
    Truthiness tests of the source are written out (\<open>truthy_str\<close> and friends).
  \<^item> A plain object used as a dictionary (\<^verbatim>\<open>Headers\<close>) is an association list
    with distinct keys in insertion order; assignment \<^verbatim>\<open>o[k] = v\<close> is \<open>obj_set\<close>.
    (JavaScript lists keys that are array indices first; such keys are not treated
    specially, nor is the key \<^verbatim>\<open>__proto__\<close> in a headers object. The object that
    \<^verbatim>\<open>postDataJSON\<close> fills from the page's body does treat it: see \<open>entries_set\<close>.)
  \<^item> A thrown \<^verbatim>\<open>Error\<close> is a value of type \<open>error\<close> carrying its message; a
    fallible function returns \<open>error + 'a\<close>.
  \<^item> Methods are named \<open>Class_method\<close>.
\<close>

datatype error = Error string | TypeError string

subsection \<open>Strings\<close>

definition lower_char :: "char \<Rightarrow> char" where
  "lower_char c =
     (let n = (of_char c :: nat) in if 65 \<le> n \<and> n \<le> 90 then char_of (n + 32) else c)"

definition toLowerCase :: "string \<Rightarrow> string" where
  "toLowerCase s = map lower_char s"

text \<open>\<^verbatim>\<open>Array.prototype.join\<close> on an array of strings.\<close>

fun join :: "string \<Rightarrow> string list \<Rightarrow> string" where
  "join sep [] = []"
| "join sep [x] = x"
| "join sep (x # y # ys) = x @ sep @ join sep (y # ys)"

text \<open>\<^verbatim>\<open>String.prototype.includes\<close>: the argument occurs as a contiguous substring.\<close>

fun starts_with :: "string \<Rightarrow> string \<Rightarrow> bool" where
  "starts_with [] s = True"
| "starts_with (p # ps) [] = False"
| "starts_with (p # ps) (c # cs) = (p = c \<and> starts_with ps cs)"

fun str_includes :: "string \<Rightarrow> string \<Rightarrow> bool" where
  "str_includes [] p = (p = [])"
| "str_includes (c # cs) p = (starts_with p (c # cs) \<or> str_includes cs p)"

definition truthy_str :: "string option \<Rightarrow> bool" where
  "truthy_str s = (case s of None \<Rightarrow> False | Some t \<Rightarrow> t \<noteq> [])"

subsection \<open>Plain objects and the MultiMap helper\<close>

type_synonym header = "string \<times> string"
type_synonym HeadersArray = "header list"
type_synonym Headers = "(string \<times> string) list"

text \<open>Property assignment \<^verbatim>\<open>o[k] = v\<close>: an existing key keeps its place.\<close>

fun obj_set :: "'k \<Rightarrow> 'v \<Rightarrow> ('k \<times> 'v) list \<Rightarrow> ('k \<times> 'v) list" where
  "obj_set k v [] = [(k, v)]"
| "obj_set k v ((k', v') # kvs) =
     (if k' = k then (k, v) # kvs else (k', v') # obj_set k v kvs)"

text \<open>
  Modelled from the spec: \<^verbatim>\<open>MultiMap\<close> (\<^verbatim>\<open>utils/isomorphic/multimap\<close>, not among the
  sources): ``a lowercase-keyed multimap index'' in which ``multiple values for one name
  preserve original insertion order''. \<open>mm_set\<close> appends a value to the key's array,
  creating the key at the end when it is new; \<open>mm_get\<close> yields the key's array, or the
  empty array; \<open>mm_keys\<close> lists the keys in first-insertion order.
\<close>

type_synonym ('k, 'v) MultiMap = "('k \<times> 'v list) list"

fun mm_set :: "'k \<Rightarrow> 'v \<Rightarrow> ('k, 'v) MultiMap \<Rightarrow> ('k, 'v) MultiMap" where
  "mm_set k v [] = [(k, [v])]"
| "mm_set k v ((k', vs) # m) =
     (if k' = k then (k', vs @ [v]) # m else (k', vs) # mm_set k v m)"

definition mm_get :: "'k \<Rightarrow> ('k, 'v) MultiMap \<Rightarrow> 'v list" where
  "mm_get k m = (case map_of m k of None \<Rightarrow> [] | Some vs \<Rightarrow> vs)"

definition mm_keys :: "('k, 'v) MultiMap \<Rightarrow> 'k list" where
  "mm_keys m = map fst m"

subsection \<open>RawHeaders\<close>

record RawHeaders =
  headersArray :: HeadersArray
  headersMap :: "(string, string) MultiMap"

text \<open>The constructor: keep the array, index each value under the lower-cased name.\<close>

definition new_RawHeaders :: "HeadersArray \<Rightarrow> RawHeaders" where
  "new_RawHeaders hs =
     \<lparr> headersArray = hs,
       headersMap = foldl (\<lambda>m h. mm_set (toLowerCase (fst h)) (snd h) m) [] hs \<rparr>"

definition RawHeaders_getAll :: "RawHeaders \<Rightarrow> string \<Rightarrow> string list" where
  "RawHeaders_getAll rh name = mm_get (toLowerCase name) (headersMap rh)"

definition RawHeaders_get :: "RawHeaders \<Rightarrow> string \<Rightarrow> string option" where
  "RawHeaders_get rh name =
     (let values = RawHeaders_getAll rh name in
      if values = [] then None
      else Some (join (if toLowerCase name = ''set-cookie'' then [CHR 0x0A] else '', '') values))"

text \<open>
  \<^verbatim>\<open>headers()\<close>: one joined value per key of the index. The source writes
  \<^verbatim>\<open>this.get(name)!\<close>; a key of the index always holds a value
  (lemma \<open>RawHeaders_get_key\<close>), so the \<open>None\<close> branch is dead for every
  constructed store.
\<close>

definition RawHeaders_headers :: "RawHeaders \<Rightarrow> Headers" where
  "RawHeaders_headers rh =
     foldl (\<lambda>result name. case RawHeaders_get rh name of Some v \<Rightarrow> obj_set name v result | None \<Rightarrow> result)
       [] (mm_keys (headersMap rh))"

text \<open>\<^verbatim>\<open>_fromHeadersObjectLossy\<close>: the entries of a headers object (none is undefined).\<close>

definition fromHeadersObjectLossy :: "Headers \<Rightarrow> RawHeaders" where
  "fromHeadersObjectLossy hs = new_RawHeaders hs"

subsection \<open>Buffers, JSON values and the platform functions used by the source\<close>

type_synonym byte = "8 word"
type_synonym Buffer = "byte list"

text \<open>
  Decoding bytes as UTF-8, as \<^verbatim>\<open>buffer.toString('utf-8')\<close> and the ``UTF-8 decode
  without BOM'' of the Encoding standard do: a well-formed sequence is kept, and every
  maximal ill-formed part is replaced by U+FFFD (the bytes EF BF BD here, strings
  holding their UTF-8 bytes). A byte order mark is kept. \<open>utf8_lead\<close> gives, for a
  lead byte, the number of continuation bytes and the bounds of the first of them.
  \<open>utf8_scan\<close> is the decoder's state machine: the number of bytes still needed, the
  bounds of the next byte, the bytes of the sequence read so far, and the input; a byte
  that cannot continue a sequence ends it with U+FFFD and is read again.
\<close>

definition replacement_char :: string where
  "replacement_char = [CHR 0xEF, CHR 0xBF, CHR 0xBD]"

definition utf8_lead :: "nat \<Rightarrow> (nat \<times> nat \<times> nat) option" where
  "utf8_lead b =
     (if 0xC2 \<le> b \<and> b \<le> 0xDF then Some (1, 0x80, 0xBF)
      else if 0xE0 \<le> b \<and> b \<le> 0xEF
      then Some (2, if b = 0xE0 then 0xA0 else 0x80, if b = 0xED then 0x9F else 0xBF)
      else if 0xF0 \<le> b \<and> b \<le> 0xF4
      then Some (3, if b = 0xF0 then 0x90 else 0x80, if b = 0xF4 then 0x8F else 0xBF)
      else None)"

fun utf8_scan :: "nat \<Rightarrow> nat \<Rightarrow> nat \<Rightarrow> string \<Rightarrow> string \<Rightarrow> string" where
  "utf8_scan 0 lo hi pending [] = []"
| "utf8_scan (Suc n) lo hi pending [] = replacement_char"
| "utf8_scan 0 lo hi pending (c # cs) =
     (if (of_char c :: nat) \<le> 0x7F then c # utf8_scan 0 0x80 0xBF [] cs
      else (case utf8_lead (of_char c) of
              None \<Rightarrow> replacement_char @ utf8_scan 0 0x80 0xBF [] cs
            | Some (n, lo', hi') \<Rightarrow> utf8_scan n lo' hi' [c] cs))"
| "utf8_scan (Suc n) lo hi pending (c # cs) =
     (if lo \<le> (of_char c :: nat) \<and> (of_char c :: nat) \<le> hi
      then (if n = 0 then pending @ [c] @ utf8_scan 0 0x80 0xBF [] cs
            else utf8_scan n 0x80 0xBF (pending @ [c]) cs)
      else replacement_char @ utf8_scan 0 0x80 0xBF [] (c # cs))"

definition utf8_decode :: "string \<Rightarrow> string" where
  "utf8_decode s = utf8_scan 0 0x80 0xBF [] s"

text \<open>
  \<^verbatim>\<open>buffer.toString('utf-8')\<close> decodes the bytes; \<^verbatim>\<open>Buffer.from(s, 'utf-8')\<close> gives the
  bytes of a string.
\<close>

definition toString_utf8 :: "Buffer \<Rightarrow> string" where
  "toString_utf8 b = utf8_decode (map (\<lambda>x. char_of (unat x)) b)"

definition Buffer_from_utf8 :: "string \<Rightarrow> Buffer" where
  "Buffer_from_utf8 s = map (\<lambda>c. of_nat (of_char c)) s"

text \<open>
  JSON-serializable values. Numbers are restricted to integers (no floating point).
  \<open>truthy_json\<close> is JavaScript truthiness of such a value.
\<close>

datatype json =
  JNull | JBool bool | JNum int | JStr string | JArr "json list" | JObj "(string \<times> json) list"

fun truthy_json :: "json \<Rightarrow> bool" where
  "truthy_json JNull = False"
| "truthy_json (JBool b) = b"
| "truthy_json (JNum i) = (i \<noteq> 0)"
| "truthy_json (JStr s) = (s \<noteq> [])"
| "truthy_json (JArr xs) = True"
| "truthy_json (JObj kvs) = True"

text \<open>\<^verbatim>\<open>String(n)\<close> for a non-negative integer: its decimal digits.\<close>

fun String_of_nat :: "nat \<Rightarrow> string" where
  "String_of_nat n =
     (if n < 10 then [char_of (48 + n)] else String_of_nat (n div 10) @ [char_of (48 + n mod 10)])"

declare String_of_nat.simps [simp del]

definition String_of_int :: "int \<Rightarrow> string" where
  "String_of_int i = (if i < 0 then CHR ''-'' # String_of_nat (nat (- i)) else String_of_nat (nat i))"

text \<open>
  \<^verbatim>\<open>JSON.stringify\<close> without indentation: \<open>quote_json\<close> is the QuoteJSONString operation
  of ECMA-262 on bytes (the double quote, the backslash and the control characters
  below 0x20 are escaped).
\<close>

definition hex_digit :: "nat \<Rightarrow> char" where
  "hex_digit n = (if n < 10 then char_of (48 + n) else char_of (87 + n))"

definition escape_char :: "char \<Rightarrow> string" where
  "escape_char c =
     (let n = (of_char c :: nat) in
      if n = 0x22 then [CHR 0x5C, CHR 0x22]
      else if n = 0x5C then [CHR 0x5C, CHR 0x5C]
      else if n = 8 then [CHR 0x5C, CHR ''b'']
      else if n = 9 then [CHR 0x5C, CHR ''t'']
      else if n = 10 then [CHR 0x5C, CHR ''n'']
      else if n = 12 then [CHR 0x5C, CHR ''f'']
      else if n = 13 then [CHR 0x5C, CHR ''r'']
      else if n < 32 then [CHR 0x5C, CHR ''u'', CHR ''0'', CHR ''0'', hex_digit (n div 16), hex_digit (n mod 16)]
      else [c])"

definition quote_json :: "string \<Rightarrow> string" where
  "quote_json s = CHR 0x22 # concat (map escape_char s) @ [CHR 0x22]"

fun JSON_stringify :: "json \<Rightarrow> string" where
  "JSON_stringify JNull = ''null''"
| "JSON_stringify (JBool b) = (if b then ''true'' else ''false'')"
| "JSON_stringify (JNum i) = String_of_int i"
| "JSON_stringify (JStr s) = quote_json s"
| "JSON_stringify (JArr xs) = ''['' @ join '','' (map JSON_stringify xs) @ '']''"
| "JSON_stringify (JObj kvs) =
     ''{'' @ join '','' (map (\<lambda>(k, v). quote_json k @ '':'' @ JSON_stringify v) kvs) @ ''}''"

text \<open>
  \<^verbatim>\<open>new URLSearchParams(s)\<close> followed by \<^verbatim>\<open>entries()\<close>: the
  \<^verbatim>\<open>application/x-www-form-urlencoded\<close> parser of the URL standard. A leading
  \<^verbatim>\<open>?\<close> is dropped, the string is split at \<^verbatim>\<open>&\<close>, empty pieces are skipped, each
  piece is split at its first \<^verbatim>\<open>=\<close>, \<^verbatim>\<open>+\<close> becomes a space, percent escapes are
  decoded to bytes, and the bytes are decoded as UTF-8.
\<close>

fun split_on :: "char \<Rightarrow> string \<Rightarrow> string list" where
  "split_on d [] = [[]]"
| "split_on d (c # cs) =
     (if c = d then [] # split_on d cs
      else (case split_on d cs of [] \<Rightarrow> [[c]] | w # ws \<Rightarrow> (c # w) # ws))"

definition hex_value :: "char \<Rightarrow> nat option" where
  "hex_value c =
     (let n = (of_char c :: nat) in
      if 48 \<le> n \<and> n \<le> 57 then Some (n - 48)
      else if 65 \<le> n \<and> n \<le> 70 then Some (n - 55)
      else if 97 \<le> n \<and> n \<le> 102 then Some (n - 87)
      else None)"

fun percent_decode :: "string \<Rightarrow> string" where
  "percent_decode (c # h # l # cs) =
     (if c = CHR ''%'' then
        (case (hex_value h, hex_value l) of
           (Some a, Some b) \<Rightarrow> char_of (16 * a + b) # percent_decode cs
         | _ \<Rightarrow> c # percent_decode (h # l # cs))
      else c # percent_decode (h # l # cs))"
| "percent_decode cs = cs"

definition plus_to_space :: "char \<Rightarrow> char" where
  "plus_to_space c = (if c = CHR ''+'' then CHR '' '' else c)"

definition form_component :: "string \<Rightarrow> string" where
  "form_component s = utf8_decode (percent_decode (map plus_to_space s))"

definition form_pair :: "string \<Rightarrow> string \<times> string" where
  "form_pair piece =
     (form_component (takeWhile (\<lambda>c. c \<noteq> CHR ''='') piece),
      form_component (drop 1 (dropWhile (\<lambda>c. c \<noteq> CHR ''='') piece)))"

definition URLSearchParams :: "string \<Rightarrow> (string \<times> string) list" where
  "URLSearchParams init =
     (let s = (case init of c # cs \<Rightarrow> if c = CHR ''?'' then cs else init | [] \<Rightarrow> init)
      in map form_pair (filter (\<lambda>piece. piece \<noteq> []) (split_on CHR ''&'' s)))"

text \<open>
  The \<^verbatim>\<open>application/x-www-form-urlencoded\<close> serializer of the URL standard, which is
  what a page's form submission, or \<^verbatim>\<open>new URLSearchParams(pairs).toString()\<close>, puts in
  a body: a space becomes \<^verbatim>\<open>+\<close>; letters, digits and \<^verbatim>\<open>*-._\<close> stay; every other
  byte becomes \<^verbatim>\<open>%XX\<close>; name and value are joined by \<^verbatim>\<open>=\<close> and the pairs by
  \<^verbatim>\<open>&\<close>. The source does not call it: it says which body carries given pairs.
\<close>

definition hex_upper :: "nat \<Rightarrow> char" where
  "hex_upper n = (if n < 10 then char_of (48 + n) else char_of (55 + n))"

definition form_unreserved :: "char \<Rightarrow> bool" where
  "form_unreserved c =
     (let n = (of_char c :: nat) in
      (48 \<le> n \<and> n \<le> 57) \<or> (65 \<le> n \<and> n \<le> 90) \<or> (97 \<le> n \<and> n \<le> 122) \<or>
      n = 0x2A \<or> n = 0x2D \<or> n = 0x2E \<or> n = 0x5F)"

definition form_encode_char :: "char \<Rightarrow> string" where
  "form_encode_char c =
     (if c = CHR '' '' then ''+''
      else if form_unreserved c then [c]
      else [CHR ''%'', hex_upper (of_char c div 16), hex_upper (of_char c mod 16)])"

definition form_encode :: "string \<Rightarrow> string" where
  "form_encode s = concat (map form_encode_char s)"

definition form_serialize :: "(string \<times> string) list \<Rightarrow> string" where
  "form_serialize ps = join ''&'' (map (\<lambda>p. form_encode (fst p) @ ''='' @ form_encode (snd p)) ps)"

definition is_ascii :: "string \<Rightarrow> bool" where
  "is_ascii s = list_all (\<lambda>c. (of_char c :: nat) < 128) s"

subsection \<open>Base64\<close>

text \<open>
  \<^verbatim>\<open>buffer.toString('base64')\<close> is RFC 4648 base64 with padding. \<^verbatim>\<open>Buffer.from(s, 'base64')\<close>
  is Node's forgiving decoder: it stops at the first \<^verbatim>\<open>=\<close>, skips the characters
  outside the alphabets (the URL-safe \<^verbatim>\<open>-\<close> and \<^verbatim>\<open>_\<close> are accepted), and packs the
  six-bit values into bytes, dropping the bits of an incomplete last byte.
\<close>

definition b64_char :: "nat \<Rightarrow> char" where
  "b64_char n =
     (if n < 26 then char_of (65 + n)
      else if n < 52 then char_of (71 + n)
      else if n < 62 then char_of (n - 4)
      else if n = 62 then CHR ''+'' else CHR ''/'')"

fun base64_encode :: "Buffer \<Rightarrow> string" where
  "base64_encode (a # b # c # rest) =
     [b64_char (unat a div 4), b64_char (unat a mod 4 * 16 + unat b div 16),
      b64_char (unat b mod 16 * 4 + unat c div 64), b64_char (unat c mod 64)] @ base64_encode rest"
| "base64_encode [a, b] =
     [b64_char (unat a div 4), b64_char (unat a mod 4 * 16 + unat b div 16),
      b64_char (unat b mod 16 * 4), CHR ''='']"
| "base64_encode [a] = [b64_char (unat a div 4), b64_char (unat a mod 4 * 16), CHR ''='', CHR ''='']"
| "base64_encode [] = []"

definition unbase64 :: "char \<Rightarrow> nat option" where
  "unbase64 c =
     (let n = (of_char c :: nat) in
      if 65 \<le> n \<and> n \<le> 90 then Some (n - 65)
      else if 97 \<le> n \<and> n \<le> 122 then Some (n - 71)
      else if 48 \<le> n \<and> n \<le> 57 then Some (n + 4)
      else if n = 43 \<or> n = 45 then Some 62
      else if n = 47 \<or> n = 95 then Some 63
      else None)"

fun b64_pack :: "nat list \<Rightarrow> Buffer" where
  "b64_pack (s1 # s2 # s3 # s4 # rest) =
     [of_nat (s1 * 4 + s2 div 16), of_nat (s2 mod 16 * 16 + s3 div 4), of_nat (s3 mod 4 * 64 + s4)]
       @ b64_pack rest"
| "b64_pack [s1, s2, s3] = [of_nat (s1 * 4 + s2 div 16), of_nat (s2 mod 16 * 16 + s3 div 4)]"
| "b64_pack [s1, s2] = [of_nat (s1 * 4 + s2 div 16)]"
| "b64_pack ss = []"

definition base64_decode :: "string \<Rightarrow> Buffer" where
  "base64_decode s = b64_pack (List.map_filter unbase64 (takeWhile (\<lambda>c. c \<noteq> CHR ''='') s))"

subsection \<open>Request\<close>

text \<open>
  Objects live in a store (a list; a reference is an index), since the constructor
  writes \<^verbatim>\<open>_redirectedTo\<close> of another \<^verbatim>\<open>Request\<close>.
\<close>

type_synonym ref = nat

record RequestInitializer =
  init_url :: string
  init_resourceType :: string
  init_method :: string
  init_postData :: "Buffer option"
  init_headers :: HeadersArray
  init_redirectedFrom :: "ref option"

record SerializedFallbackOverrides =
  so_url :: "string option"
  so_method :: "string option"
  so_headers :: "Headers option"
  so_postDataBuffer :: "Buffer option"

datatype postData_arg = PostString string | PostBuffer Buffer | PostSerializable json

record FallbackOverrides =
  fo_url :: "string option"
  fo_method :: "string option"
  fo_headers :: "Headers option"
  fo_postData :: "postData_arg option"

record Request =
  initializer :: RequestInitializer
  redirectedFrom :: "ref option"
  redirectedTo :: "ref option"
  provisionalHeaders :: RawHeaders
  fallbackOverrides :: SerializedFallbackOverrides

definition empty_overrides :: SerializedFallbackOverrides where
  "empty_overrides = \<lparr> so_url = None, so_method = None, so_headers = None, so_postDataBuffer = None \<rparr>"

text \<open>
  The constructor, on the store: the new object gets the next index; when
  \<^verbatim>\<open>initializer.redirectedFrom\<close> names an object, that object's
  \<^verbatim>\<open>_redirectedTo\<close> is set to the new one.
\<close>

definition new_Request :: "Request list \<Rightarrow> RequestInitializer \<Rightarrow> ref \<times> Request list" where
  "new_Request s init =
     (let this = length s;
          r = \<lparr> initializer = init, redirectedFrom = init_redirectedFrom init, redirectedTo = None,
                provisionalHeaders = new_RawHeaders (init_headers init),
                fallbackOverrides = empty_overrides \<rparr>;
          s' = (case init_redirectedFrom init of
                  Some p \<Rightarrow> if p < length s then s[p := (s ! p)\<lparr>redirectedTo := Some this\<rparr>] else s
                | None \<Rightarrow> s)
      in (this, s' @ [r]))"

text \<open>\<^verbatim>\<open>a || b\<close> on an optional string and a string.\<close>

definition or_else :: "string option \<Rightarrow> string \<Rightarrow> string" where
  "or_else a b = (case a of Some x \<Rightarrow> if x \<noteq> [] then x else b | None \<Rightarrow> b)"

definition Request_url :: "Request \<Rightarrow> string" where
  "Request_url r = or_else (so_url (fallbackOverrides r)) (init_url (initializer r))"

definition Request_method :: "Request \<Rightarrow> string" where
  "Request_method r = or_else (so_method (fallbackOverrides r)) (init_method (initializer r))"

text \<open>A \<^verbatim>\<open>Buffer\<close> object is truthy even when empty; \<open>None\<close> is \<^verbatim>\<open>null\<close>.\<close>

definition Request_postDataBuffer :: "Request \<Rightarrow> Buffer option" where
  "Request_postDataBuffer r =
     (case so_postDataBuffer (fallbackOverrides r) of
        Some b \<Rightarrow> Some b
      | None \<Rightarrow> init_postData (initializer r))"

definition Request_postData :: "Request \<Rightarrow> string option" where
  "Request_postData r =
     (case Request_postDataBuffer r of
        None \<Rightarrow> None
      | Some b \<Rightarrow> (let t = toString_utf8 b in if t \<noteq> [] then Some t else None))"

definition Request_headers :: "Request \<Rightarrow> Headers" where
  "Request_headers r =
     (case so_headers (fallbackOverrides r) of
        Some h \<Rightarrow> RawHeaders_headers (fromHeadersObjectLossy h)
      | None \<Rightarrow> RawHeaders_headers (provisionalHeaders r))"

text \<open>
  \<^verbatim>\<open>entries[k] = v\<close> on the plain object that \<^verbatim>\<open>postDataJSON\<close> fills, \<open>v\<close> a
  string: the key \<^verbatim>\<open>__proto__\<close> is the prototype accessor, whose setter ignores a
  string, so no property is made; any other key is set.
\<close>

definition entries_set :: "string \<Rightarrow> json \<Rightarrow> (string \<times> json) list \<Rightarrow> (string \<times> json) list" where
  "entries_set k v entries = (if k = ''__proto__'' then entries else obj_set k v entries)"

text \<open>
  \<^verbatim>\<open>postDataJSON()\<close>. \<^verbatim>\<open>JSON.parse\<close> is a parameter: \<open>None\<close> when it throws. The
  result \<open>JNull\<close> is \<^verbatim>\<open>null\<close>. The loop over \<^verbatim>\<open>parsed.entries()\<close> is a fold of
  \<open>entries_set\<close>.
\<close>

definition Request_postDataJSON :: "(string \<Rightarrow> json option) \<Rightarrow> Request \<Rightarrow> error + json" where
  "Request_postDataJSON JSON_parse r =
     (case Request_postData r of
        None \<Rightarrow> Inr JNull
      | Some postData \<Rightarrow>
          if (case map_of (Request_headers r) ''content-type'' of
                Some contentType \<Rightarrow> str_includes contentType ''application/x-www-form-urlencoded''
              | None \<Rightarrow> False)
          then Inr (JObj (foldl (\<lambda>entries (k, v). entries_set k (JStr v) entries) []
                            (URLSearchParams postData)))
          else (case JSON_parse postData of
                  Some j \<Rightarrow> Inr j
                | None \<Rightarrow> Inl (Error (''POST data is not a valid JSON object: '' @ postData))))"

text \<open>
  \<^verbatim>\<open>_finalRequest()\<close> follows \<^verbatim>\<open>_redirectedTo\<close>; on a cyclic store the recursion
  does not return, which is the value \<open>None\<close> (as is a reference outside the store).
\<close>

partial_function (option) Request_finalRequest :: "Request list \<Rightarrow> ref \<Rightarrow> ref option" where
  "Request_finalRequest s r =
     (if r < length s then
        (case redirectedTo (s ! r) of
           Some t \<Rightarrow> Request_finalRequest s t
         | None \<Rightarrow> Some r)
      else None)"

definition Request_applyFallbackOverrides :: "FallbackOverrides \<Rightarrow> Request \<Rightarrow> Request" where
  "Request_applyFallbackOverrides overrides r =
     (let ov0 = fallbackOverrides r;
          ov1 = (if truthy_str (fo_url overrides) then ov0\<lparr>so_url := fo_url overrides\<rparr> else ov0);
          ov2 = (if truthy_str (fo_method overrides) then ov1\<lparr>so_method := fo_method overrides\<rparr> else ov1);
          ov3 = (case fo_headers overrides of Some h \<Rightarrow> ov2\<lparr>so_headers := Some h\<rparr> | None \<Rightarrow> ov2);
          ov4 = (case fo_postData overrides of
                   Some (PostString t) \<Rightarrow> ov3\<lparr>so_postDataBuffer := Some (Buffer_from_utf8 t)\<rparr>
                 | Some (PostBuffer b) \<Rightarrow> ov3\<lparr>so_postDataBuffer := Some b\<rparr>
                 | Some (PostSerializable j) \<Rightarrow>
                     if truthy_json j
                     then ov3\<lparr>so_postDataBuffer := Some (Buffer_from_utf8 (JSON_stringify j))\<rparr>
                     else ov3
                 | None \<Rightarrow> ov3)
      in r\<lparr>fallbackOverrides := ov4\<rparr>)"

subsection \<open>Route\<close>

text \<open>
  Modelled from the spec: \<^verbatim>\<open>headersObjectToArray\<close> (\<^verbatim>\<open>utils/isomorphic/headers\<close>, not
  among the sources): the headers object as the array of its name/value pairs, which is
  what a command carries.
\<close>

definition headersObjectToArray :: "Headers \<Rightarrow> HeadersArray" where
  "headersObjectToArray h = h"

text \<open>
  An \<^verbatim>\<open>APIResponse\<close> passed to \<^verbatim>\<open>fulfill\<close>: its status, its headers, whether it
  belongs to the route's connection, its fetch uid, and what \<^verbatim>\<open>await response.body()\<close>
  gives (an error when it rejects).
\<close>

record APIResponse =
  resp_status :: int
  resp_headers :: Headers
  resp_sameConnection :: bool
  resp_fetchUid :: string
  resp_body :: "error + Buffer"

datatype body_arg = BodyString string | BodyBuffer Buffer

record fulfill_options =
  opt_response :: "APIResponse option"
  opt_status :: "int option"
  opt_headers :: "Headers option"
  opt_contentType :: "string option"
  opt_body :: "body_arg option"
  opt_json :: "json option"
  opt_path :: "string option"

text \<open>The file-system collaborator: \<^verbatim>\<open>readFile\<close> and \<^verbatim>\<open>getMimeTypeForPath\<close>.\<close>

record Platform =
  readFile :: "string \<Rightarrow> error + Buffer"
  getMimeTypeForPath :: "string \<Rightarrow> string option"

record fulfill_params =
  fp_status :: int
  fp_headers :: HeadersArray
  fp_body :: "string option"
  fp_isBase64 :: bool
  fp_fetchResponseUid :: "string option"

record continue_params =
  cp_url :: "string option"
  cp_method :: "string option"
  cp_headers :: "HeadersArray option"
  cp_postData :: "Buffer option"
  cp_isFallback :: bool

datatype command =
    ChannelAbort "string option"
  | ChannelRedirectNavigationRequest string
  | ChannelContinue continue_params
  | ChannelFulfill fulfill_params

text \<open>
  \<^verbatim>\<open>_innerFulfill\<close>, in the order of the source. First the \<^verbatim>\<open>json\<close> block: the
  assertion, then \<^verbatim>\<open>body = JSON.stringify(options.json)\<close>.
\<close>

definition fulfill_json_body :: "fulfill_options \<Rightarrow> error + body_arg option" where
  "fulfill_json_body options =
     (case opt_json options of
        Some j \<Rightarrow>
          if opt_body options = None then Inr (Some (BodyString (JSON_stringify j)))
          else Inl (Error ''Can specify either body or json parameters'')
      | None \<Rightarrow> Inr (opt_body options))"

text \<open>
  The \<^verbatim>\<open>options.response\<close> block: \<^verbatim>\<open>??=\<close> fills an undefined status and undefined
  headers from the response; without body and path the response's body is forwarded
  by uid (same connection) or fetched. The result is
  \<open>(statusOption, headersOption, body, fetchResponseUid)\<close>.
\<close>

definition fulfill_response ::
  "fulfill_options \<Rightarrow> body_arg option \<Rightarrow>
     error + (int option \<times> Headers option \<times> body_arg option \<times> string option)" where
  "fulfill_response options body =
     (case opt_response options of
        None \<Rightarrow> Inr (opt_status options, opt_headers options, body, None)
      | Some response \<Rightarrow>
          (let statusOption = (case opt_status options of
                                 None \<Rightarrow> Some (resp_status response) | Some s \<Rightarrow> Some s);
               headersOption = (case opt_headers options of
                                  None \<Rightarrow> Some (resp_headers response) | Some h \<Rightarrow> Some h)
           in if body = None \<and> opt_path options = None then
                (if resp_sameConnection response
                 then Inr (statusOption, headersOption, body, Some (resp_fetchUid response))
                 else (case resp_body response of
                         Inl e \<Rightarrow> Inl e
                       | Inr b \<Rightarrow> Inr (statusOption, headersOption, Some (BodyBuffer b), None)))
              else Inr (statusOption, headersOption, body, None)))"

text \<open>
  The encoding block: a truthy \<^verbatim>\<open>path\<close> replaces the body by the file, base64-encoded;
  else a string body is sent as it is; else a buffer body is base64-encoded. The result
  is \<open>(body, isBase64, length)\<close>.
\<close>

definition fulfill_plain_body :: "body_arg option \<Rightarrow> string option \<times> bool \<times> nat" where
  "fulfill_plain_body body =
     (case body of
        Some (BodyString s) \<Rightarrow> (Some s, False, length s)
      | Some (BodyBuffer b) \<Rightarrow> (Some (base64_encode b), True, length b)
      | None \<Rightarrow> (None, False, 0))"

definition fulfill_encode ::
  "Platform \<Rightarrow> fulfill_options \<Rightarrow> body_arg option \<Rightarrow> error + (string option \<times> bool \<times> nat)" where
  "fulfill_encode pf options body =
     (case opt_path options of
        Some p \<Rightarrow>
          if p \<noteq> [] then
            (case readFile pf p of
               Inl e \<Rightarrow> Inl e
             | Inr buffer \<Rightarrow> Inr (Some (base64_encode buffer), True, length buffer))
          else Inr (fulfill_plain_body body)
      | None \<Rightarrow> Inr (fulfill_plain_body body))"

text \<open>
  The headers block: the given headers with lower-cased names, then the content type
  (\<^verbatim>\<open>contentType\<close> if truthy, else \<^verbatim>\<open>application/json\<close> if \<^verbatim>\<open>json\<close> is truthy, else the
  mime type of a truthy \<^verbatim>\<open>path\<close>), then the content length when the length is not 0
  and no \<^verbatim>\<open>content-length\<close> key is there.
\<close>

definition fulfill_content_type :: "Platform \<Rightarrow> fulfill_options \<Rightarrow> string option" where
  "fulfill_content_type pf options =
     (if truthy_str (opt_contentType options) then opt_contentType options
      else if (case opt_json options of Some j \<Rightarrow> truthy_json j | None \<Rightarrow> False)
      then Some ''application/json''
      else (case opt_path options of
              Some p \<Rightarrow>
                if p \<noteq> [] then Some (or_else (getMimeTypeForPath pf p) ''application/octet-stream'')
                else None
            | None \<Rightarrow> None))"

definition lowered :: "Headers \<Rightarrow> Headers" where
  "lowered h = foldl (\<lambda>hs header. obj_set (toLowerCase (fst header)) (snd header) hs) [] h"

definition fulfill_headers :: "Platform \<Rightarrow> fulfill_options \<Rightarrow> Headers option \<Rightarrow> nat \<Rightarrow> Headers" where
  "fulfill_headers pf options headersOption len =
     (let headers0 = lowered (case headersOption of Some h \<Rightarrow> h | None \<Rightarrow> []);
          headers1 = (case fulfill_content_type pf options of
                        Some ct \<Rightarrow> obj_set ''content-type'' ct headers0
                      | None \<Rightarrow> headers0)
      in if len \<noteq> 0 \<and> ''content-length'' \<notin> set (map fst headers1)
         then obj_set ''content-length'' (String_of_nat len) headers1
         else headers1)"

text \<open>The parameters of the \<^verbatim>\<open>fulfill\<close> command that \<^verbatim>\<open>_innerFulfill\<close> sends.\<close>

definition Route_innerFulfill :: "Platform \<Rightarrow> fulfill_options \<Rightarrow> error + fulfill_params" where
  "Route_innerFulfill pf options =
     (case fulfill_json_body options of
        Inl e \<Rightarrow> Inl e
      | Inr body0 \<Rightarrow>
          (case fulfill_response options body0 of
             Inl e \<Rightarrow> Inl e
           | Inr (statusOption, headersOption, body1, uid) \<Rightarrow>
               (case fulfill_encode pf options body1 of
                  Inl e \<Rightarrow> Inl e
                | Inr (body, isBase64, len) \<Rightarrow>
                    Inr \<lparr> fp_status = (case statusOption of
                                         Some s \<Rightarrow> if s \<noteq> 0 then s else 200
                                       | None \<Rightarrow> 200),
                          fp_headers = headersObjectToArray
                                         (fulfill_headers pf options headersOption len),
                          fp_body = body, fp_isBase64 = isBase64,
                          fp_fetchResponseUid = uid \<rparr>)))"

text \<open>
  Modelled from the spec: \<^verbatim>\<open>ManualPromise\<close> (\<^verbatim>\<open>utils/isomorphic/manualPromise\<close>, not
  among the sources): ``a future that resolves with the boolean resolution outcome''.
  The promises live in a store, \<open>None\<close> while pending; resolving a settled promise
  changes nothing.
\<close>

definition ManualPromise_resolve :: "ref \<Rightarrow> bool \<Rightarrow> bool option list \<Rightarrow> bool option list" where
  "ManualPromise_resolve p v ps = (if p < length ps \<and> ps ! p = None then ps[p := Some v] else ps)"

text \<open>
  A \<^verbatim>\<open>Route\<close> with what it reaches: \<^verbatim>\<open>_handlingPromise\<close> (a reference into
  \<open>promises\<close>, or \<^verbatim>\<open>null\<close>), \<^verbatim>\<open>_didThrow\<close>, its \<^verbatim>\<open>Request\<close>, and the commands issued
  on its channel so far, oldest first.
\<close>

record Route =
  handlingPromise :: "ref option"
  didThrow :: bool
  promises :: "bool option list"
  request :: Request
  channel :: "command list"

definition new_Route :: "Request \<Rightarrow> Route" where
  "new_Route r = \<lparr> handlingPromise = None, didThrow = False, promises = [], request = r, channel = [] \<rparr>"

definition Route_startHandling :: "Route \<Rightarrow> ref \<times> Route" where
  "Route_startHandling rt =
     (let p = length (promises rt)
      in (p, rt\<lparr>handlingPromise := Some p, promises := promises rt @ [None]\<rparr>))"

definition Route_checkNotHandled :: "Route \<Rightarrow> error + unit" where
  "Route_checkNotHandled rt =
     (if handlingPromise rt = None then Inl (Error ''Route is already handled!'') else Inr ())"

text \<open>
  \<^verbatim>\<open>_reportHandled\<close>: \<^verbatim>\<open>chain.resolve(done)\<close> on a \<^verbatim>\<open>null\<close> chain is a
  \<^verbatim>\<open>TypeError\<close>.
\<close>

definition Route_reportHandled :: "bool \<Rightarrow> Route \<Rightarrow> error + Route" where
  "Route_reportHandled done rt =
     (case handlingPromise rt of
        None \<Rightarrow> Inl (TypeError ''Cannot read properties of null'')
      | Some chain \<Rightarrow>
          Inr (rt\<lparr>handlingPromise := None, promises := ManualPromise_resolve chain done (promises rt)\<rparr>))"

definition channel_send :: "command \<Rightarrow> Route \<Rightarrow> Route" where
  "channel_send c rt = rt\<lparr>channel := channel rt @ [c]\<rparr>"

definition Route_innerContinue :: "bool \<Rightarrow> Route \<Rightarrow> Route" where
  "Route_innerContinue isFallback rt =
     (let options = fallbackOverrides (request rt)
      in channel_send (ChannelContinue
                 \<lparr> cp_url = so_url options, cp_method = so_method options,
                   cp_headers = map_option headersObjectToArray (so_headers options),
                   cp_postData = so_postDataBuffer options, cp_isFallback = isFallback \<rparr>) rt)"

text \<open>
  The resolving calls. An \<^verbatim>\<open>async\<close> method runs in two steps, with other code of the
  same thread in between: \<open>Route_begin\<close> is the method up to the point where its
  command is on the channel and the method awaits the reply; \<open>Route_settle\<close> is the rest
  of \<^verbatim>\<open>_handleRoute\<close>, run when the awaited command settles. The argument of
  \<open>Route_settle\<close> is \<open>None\<close> when \<^verbatim>\<open>_raceWithTargetClose\<close> resolves (the command
  succeeded, or the target closed first) and \<open>Some e\<close> when it rejects with \<open>e\<close>.
  The awaits inside \<^verbatim>\<open>_innerFulfill\<close> before its command (reading the file, fetching
  the response body) are part of \<open>Route_begin\<close>.
\<close>

datatype call =
    Fallback FallbackOverrides
  | Abort "string option"
  | RedirectNavigationRequest string
  | Fulfill fulfill_options
  | Continue FallbackOverrides

datatype phase = Awaiting | Done

text \<open>The callback that a method passes to \<^verbatim>\<open>_handleRoute\<close>, up to its command.\<close>

fun Route_callback :: "Platform \<Rightarrow> call \<Rightarrow> Route \<Rightarrow> error + Route" where
  "Route_callback pf (Abort errorCode) rt = Inr (channel_send (ChannelAbort errorCode) rt)"
| "Route_callback pf (RedirectNavigationRequest u) rt =
     Inr (channel_send (ChannelRedirectNavigationRequest u) rt)"
| "Route_callback pf (Fulfill options) rt =
     (case Route_innerFulfill pf options of
        Inl e \<Rightarrow> Inl e
      | Inr params \<Rightarrow> Inr (channel_send (ChannelFulfill params) rt))"
| "Route_callback pf (Continue options) rt =
     Inr (Route_innerContinue False
            (rt\<lparr>request := Request_applyFallbackOverrides options (request rt)\<rparr>))"
| "Route_callback pf (Fallback options) rt =
     Inr (rt\<lparr>request := Request_applyFallbackOverrides options (request rt)\<rparr>)"

text \<open>
  \<^verbatim>\<open>fallback\<close> has no await: check, apply the overrides, report \<^verbatim>\<open>false\<close>. The other
  calls go through \<^verbatim>\<open>_handleRoute\<close>: the check, then the callback inside \<^verbatim>\<open>try\<close>.
\<close>

fun Route_begin :: "Platform \<Rightarrow> call \<Rightarrow> Route \<Rightarrow> (error + phase) \<times> Route" where
  "Route_begin pf (Fallback options) rt =
     (case Route_checkNotHandled rt of
        Inl e \<Rightarrow> (Inl e, rt)
      | Inr _ \<Rightarrow>
          (let rt1 = rt\<lparr>request := Request_applyFallbackOverrides options (request rt)\<rparr>
           in case Route_reportHandled False rt1 of
                Inl e \<Rightarrow> (Inl e, rt1)
              | Inr rt2 \<Rightarrow> (Inr Done, rt2)))"
| "Route_begin pf c rt =
     (case Route_checkNotHandled rt of
        Inl e \<Rightarrow> (Inl e, rt)
      | Inr _ \<Rightarrow>
          (case Route_callback pf c rt of
             Inl e \<Rightarrow> (Inl e, rt\<lparr>didThrow := True\<rparr>)
           | Inr rt1 \<Rightarrow> (Inr Awaiting, rt1)))"

fun Route_settle :: "error option \<Rightarrow> Route \<Rightarrow> (error + phase) \<times> Route" where
  "Route_settle None rt =
     (case Route_reportHandled True rt of
        Inl e \<Rightarrow> (Inl e, rt\<lparr>didThrow := True\<rparr>)
      | Inr rt1 \<Rightarrow> (Inr Done, rt1))"
| "Route_settle (Some e) rt = (Inl e, rt\<lparr>didThrow := True\<rparr>)"

text \<open>
  A call that is awaited before anything else touches the route: both steps in a row.
  The second component of the argument is how the call's command settles.
\<close>

definition Route_call :: "Platform \<Rightarrow> call \<times> error option \<Rightarrow> Route \<Rightarrow> (error + phase) \<times> Route" where
  "Route_call pf c rt =
     (case Route_begin pf (fst c) rt of
        (Inr Awaiting, rt1) \<Rightarrow> Route_settle (snd c) rt1
      | res \<Rightarrow> res)"

fun Route_calls ::
  "Platform \<Rightarrow> (call \<times> error option) list \<Rightarrow> Route \<Rightarrow> (error + phase) list \<times> Route" where
  "Route_calls pf [] rt = ([], rt)"
| "Route_calls pf (c # cs) rt =
     (let (r, rt1) = Route_call pf c rt; (rs, rt2) = Route_calls pf cs rt1 in (r # rs, rt2))"

text \<open>Overlapping calls: any interleaving of the two steps.\<close>

datatype step = Begin call | Settle "error option"

fun Route_step :: "Platform \<Rightarrow> step \<Rightarrow> Route \<Rightarrow> (error + phase) \<times> Route" where
  "Route_step pf (Begin c) rt = Route_begin pf c rt"
| "Route_step pf (Settle outcome) rt = Route_settle outcome rt"

fun Route_run :: "Platform \<Rightarrow> step list \<Rightarrow> Route \<Rightarrow> (error + phase) list \<times> Route" where
  "Route_run pf [] rt = ([], rt)"
| "Route_run pf (s # ss) rt =
     (let (r, rt1) = Route_step pf s rt; (rs, rt2) = Route_run pf ss rt1 in (r # rs, rt2))"

subsection \<open>WebSocketRoute\<close>

text \<open>
  A message is a string or a \<^verbatim>\<open>Buffer\<close>. A callback installed by the user is known by
  a number; what the route does is a list of actions: a command on the channel (its
  errors are dropped by \<^verbatim>\<open>.catch(() => {})\<close>), or a call of an installed callback with
  its arguments.
\<close>

datatype message = Text string | Binary Buffer

datatype ws_command =
    SendToServer string bool
  | SendToPage string bool
  | ClosePage "int option" "string option" bool
  | CloseServer "int option" "string option" bool
  | Connect
  | EnsureOpened

datatype ws_event =
    MessageFromPage string bool
  | MessageFromServer string bool
  | ClosePageEvent "int option" "string option" bool
  | CloseServerEvent "int option" "string option" bool

datatype ws_action =
    Channel ws_command
  | CallMessage nat message
  | CallClose nat "int option" "string option"

record WebSocketRoute =
  onPageMessage :: "nat option"
  onPageClose :: "nat option"
  onServerMessage :: "nat option"
  onServerClose :: "nat option"
  connected :: bool

definition new_WebSocketRoute :: WebSocketRoute where
  "new_WebSocketRoute =
     \<lparr> onPageMessage = None, onPageClose = None, onServerMessage = None, onServerClose = None,
       connected = False \<rparr>"

text \<open>\<^verbatim>\<open>isBase64 ? Buffer.from(message, 'base64') : message\<close>\<close>

definition decode_message :: "string \<Rightarrow> bool \<Rightarrow> message" where
  "decode_message m isBase64 = (if isBase64 then Binary (base64_decode m) else Text m)"

text \<open>The four channel event handlers installed by the constructor.\<close>

fun WebSocketRoute_on :: "ws_event \<Rightarrow> WebSocketRoute \<Rightarrow> ws_action list" where
  "WebSocketRoute_on (MessageFromPage m isBase64) ws =
     (case onPageMessage ws of
        Some h \<Rightarrow> [CallMessage h (decode_message m isBase64)]
      | None \<Rightarrow> if connected ws then [Channel (SendToServer m isBase64)] else [])"
| "WebSocketRoute_on (MessageFromServer m isBase64) ws =
     (case onServerMessage ws of
        Some h \<Rightarrow> [CallMessage h (decode_message m isBase64)]
      | None \<Rightarrow> [Channel (SendToPage m isBase64)])"
| "WebSocketRoute_on (ClosePageEvent code reason wasClean) ws =
     (case onPageClose ws of
        Some h \<Rightarrow> [CallClose h code reason]
      | None \<Rightarrow> [Channel (CloseServer code reason wasClean)])"
| "WebSocketRoute_on (CloseServerEvent code reason wasClean) ws =
     (case onServerClose ws of
        Some h \<Rightarrow> [CallClose h code reason]
      | None \<Rightarrow> [Channel (ClosePage code reason wasClean)])"

text \<open>\<^verbatim>\<open>send\<close> of the page-side route and of the server-side object.\<close>

fun WebSocketRoute_send :: "message \<Rightarrow> ws_action list" where
  "WebSocketRoute_send (Text m) = [Channel (SendToPage m False)]"
| "WebSocketRoute_send (Binary b) = [Channel (SendToPage (base64_encode b) True)]"

fun server_send :: "message \<Rightarrow> ws_action list" where
  "server_send (Text m) = [Channel (SendToServer m False)]"
| "server_send (Binary b) = [Channel (SendToServer (base64_encode b) True)]"

definition WebSocketRoute_close :: "int option \<Rightarrow> string option \<Rightarrow> ws_action list" where
  "WebSocketRoute_close code reason = [Channel (ClosePage code reason True)]"

definition server_close :: "int option \<Rightarrow> string option \<Rightarrow> ws_action list" where
  "server_close code reason = [Channel (CloseServer code reason True)]"

definition WebSocketRoute_connectToServer :: "WebSocketRoute \<Rightarrow> error + (ws_action list \<times> WebSocketRoute)" where
  "WebSocketRoute_connectToServer ws =
     (if connected ws then Inl (Error ''Already connected to the server'')
      else Inr ([Channel Connect], ws\<lparr>connected := True\<rparr>))"

definition WebSocketRoute_onMessage :: "nat \<Rightarrow> WebSocketRoute \<Rightarrow> WebSocketRoute" where
  "WebSocketRoute_onMessage h ws = ws\<lparr>onPageMessage := Some h\<rparr>"

definition WebSocketRoute_onClose :: "nat \<Rightarrow> WebSocketRoute \<Rightarrow> WebSocketRoute" where
  "WebSocketRoute_onClose h ws = ws\<lparr>onPageClose := Some h\<rparr>"

definition server_onMessage :: "nat \<Rightarrow> WebSocketRoute \<Rightarrow> WebSocketRoute" where
  "server_onMessage h ws = ws\<lparr>onServerMessage := Some h\<rparr>"

definition server_onClose :: "nat \<Rightarrow> WebSocketRoute \<Rightarrow> WebSocketRoute" where
  "server_onClose h ws = ws\<lparr>onServerClose := Some h\<rparr>"

definition WebSocketRoute_afterHandle :: "WebSocketRoute \<Rightarrow> ws_action list" where
  "WebSocketRoute_afterHandle ws = (if connected ws then [] else [Channel EnsureOpened])"

subsection \<open>RouteHandler\<close>

text \<open>
  Of a \<^verbatim>\<open>RouteHandler\<close>, the invocation count and the budget: \<open>handler_times\<close> is
  \<^verbatim>\<open>_times\<close>, any number given by the caller (an integer here), by default
  \<^verbatim>\<open>Number.MAX_SAFE_INTEGER\<close>. The pattern, the callback, \<^verbatim>\<open>_ignoreException\<close> and
  \<^verbatim>\<open>_activeInvocations\<close> play no part in \<^verbatim>\<open>willExpire()\<close>.
\<close>

record RouteHandler =
  handledCount :: nat
  handler_times :: int

definition MAX_SAFE_INTEGER :: int where
  "MAX_SAFE_INTEGER = 2 ^ 53 - 1"

definition new_RouteHandler :: "int option \<Rightarrow> RouteHandler" where
  "new_RouteHandler t =
     \<lparr> handledCount = 0, handler_times = (case t of Some n \<Rightarrow> n | None \<Rightarrow> MAX_SAFE_INTEGER) \<rparr>"

definition RouteHandler_willExpire :: "RouteHandler \<Rightarrow> bool" where
  "RouteHandler_willExpire h \<longleftrightarrow> int (handledCount h) + 1 \<ge> handler_times h"

text \<open>
  The start of an invocation, up to the call of the user's callback:
  \<^verbatim>\<open>_handleInternal\<close> increments \<^verbatim>\<open>handledCount\<close> and calls
  \<^verbatim>\<open>route._startHandling()\<close>. The result is the handler and the route given to the
  callback.
\<close>

definition RouteHandler_handle_start :: "Route \<Rightarrow> RouteHandler \<Rightarrow> RouteHandler \<times> Route" where
  "RouteHandler_handle_start route h =
     (h\<lparr>handledCount := Suc (handledCount h)\<rparr>, snd (Route_startHandling route))"

text \<open>
  Modelled from the spec: the dispatcher (\<^verbatim>\<open>_onRoute\<close> of the page and of the browser
  context, not among the sources). \<^verbatim>\<open>willExpire()\<close> is ``checked before starting a new
  invocation'', so that the handler can be removed from the registered handlers while
  the invocation runs; a handler that is not registered is not invoked. The state is
  whether the handler is still registered, and the handler.
\<close>

definition dispatch :: "Route \<Rightarrow> bool \<times> RouteHandler \<Rightarrow> bool \<times> RouteHandler" where
  "dispatch route st =
     (if fst st
      then (\<not> RouteHandler_willExpire (snd st), fst (RouteHandler_handle_start route (snd st)))
      else st)"

subsection \<open>Redirect chains\<close>

text \<open>
  A redirect chain is what the network observer builds: a first request without
  \<^verbatim>\<open>redirectedFrom\<close>, then one request per redirect, each constructed with
  \<^verbatim>\<open>redirectedFrom\<close> naming the one before. \<open>redirect_chain s inits\<close> runs the
  constructor that way on the store \<open>s\<close>, once per initializer. \<open>chain_inv\<close> is the
  loop invariant of this construction.
\<close>

definition chain_step :: "Request list \<times> ref option \<Rightarrow> RequestInitializer \<Rightarrow> Request list \<times> ref option" where
  "chain_step st init =
     (let (r, s') = new_Request (fst st) (init\<lparr>init_redirectedFrom := snd st\<rparr>) in (s', Some r))"

definition redirect_chain :: "Request list \<Rightarrow> RequestInitializer list \<Rightarrow> Request list" where
  "redirect_chain s inits = fst (foldl chain_step (s, None) inits)"

definition chain_inv :: "Request list \<Rightarrow> nat \<Rightarrow> Request list \<times> ref option \<Rightarrow> bool" where
  "chain_inv s n st \<longleftrightarrow>
     length (fst st) = length s + n \<and>
     snd st = (if n = 0 then None else Some (length s + n - 1)) \<and>
     (\<forall>k<n. redirectedFrom (fst st ! (length s + k)) = (if k = 0 then None else Some (length s + k - 1)) \<and>
            redirectedTo (fst st ! (length s + k)) = (if k + 1 < n then Some (length s + k + 1) else None))"

subsection \<open>Example values\<close>

definition ex_init :: RequestInitializer where
  "ex_init = \<lparr> init_url = ''http://example.com/'', init_resourceType = ''fetch'',
      init_method = ''POST'', init_postData = Some [], init_headers = [],
      init_redirectedFrom = None \<rparr>"

definition ex_request :: Request where
  "ex_request = \<lparr> initializer = ex_init, redirectedFrom = None, redirectedTo = None,
      provisionalHeaders = new_RawHeaders [],
      fallbackOverrides = \<lparr> so_url = Some [], so_method = Some [], so_headers = None,
        so_postDataBuffer = Some [] \<rparr> \<rparr>"

definition ex_overrides :: FallbackOverrides where
  "ex_overrides = \<lparr> fo_url = Some [], fo_method = Some [], fo_headers = None, fo_postData = None \<rparr>"

text \<open>A stand-in for \<^verbatim>\<open>JSON.parse\<close> that knows one document.\<close>

definition ex_parse :: "string \<Rightarrow> json option" where
  "ex_parse s = (if s = [CHR ''{'', CHR 0x22, CHR ''a'', CHR 0x22, CHR '':'', CHR ''1'', CHR ''}'']
                 then Some (JObj [(''a'', JNum 1)]) else None)"

definition ex_post :: "HeadersArray \<Rightarrow> Buffer option \<Rightarrow> Request" where
  "ex_post hs body = last (snd (new_Request []
      \<lparr> init_url = ''http://example.com/'', init_resourceType = ''fetch'', init_method = ''POST'',
        init_postData = body, init_headers = hs, init_redirectedFrom = None \<rparr>))"


definition ex_platform :: Platform where
  "ex_platform =
     \<lparr> readFile = (\<lambda>p. if p = ''index.html'' then Inr [60, 112, 62] else Inl (Error ''ENOENT'')),
       getMimeTypeForPath = (\<lambda>p. if p = ''index.html'' then Some ''text/html'' else None) \<rparr>"

definition ex_fulfill :: fulfill_options where
  "ex_fulfill = \<lparr> opt_response = None, opt_status = None, opt_headers = None,
      opt_contentType = None, opt_body = None, opt_json = None, opt_path = None \<rparr>"

definition ex_fulfill_typed :: fulfill_options where
  "ex_fulfill_typed = \<lparr> opt_response = None, opt_status = Some 201,
      opt_headers = Some [(''Content-Length'', ''99''), (''X-A'', ''b'')],
      opt_contentType = Some ''text/plain'', opt_body = None, opt_json = Some JNull,
      opt_path = None \<rparr>"

definition ex_response :: APIResponse where
  "ex_response = \<lparr> resp_status = 404, resp_headers = [(''X-Origin'', ''upstream'')],
      resp_sameConnection = True, resp_fetchUid = ''uid'', resp_body = Inr [] \<rparr>"

text \<open>A route that a handler has just been given: \<^verbatim>\<open>_startHandling()\<close> was called.\<close>

definition ex_route :: Route where
  "ex_route = snd (Route_startHandling (new_Route (ex_post [] None)))"

definition ex_calls :: "(call \<times> error option) list" where
  "ex_calls = [(Abort None, None), (Continue ex_overrides, None), (Fallback ex_overrides, None)]"


section \<open>Verified properties\<close>

subsection \<open>RawHeaders\<close>

lemma lower_char_idem: "lower_char (lower_char c) = lower_char c"
  by (auto simp: lower_char_def Let_def)

lemma toLowerCase_idem: "toLowerCase (toLowerCase s) = toLowerCase s"
  by (simp add: toLowerCase_def lower_char_idem)

lemma mm_get_set:
  "mm_get k (mm_set k' v m) = (if k = k' then mm_get k m @ [v] else mm_get k m)"
  by (induction m) (auto simp: mm_get_def)

lemma mm_get_foldl:
  "mm_get k (foldl (\<lambda>m h. mm_set (toLowerCase (fst h)) (snd h) m) m0 hs) =
     mm_get k m0 @ map snd (filter (\<lambda>h. toLowerCase (fst h) = k) hs)"
  by (induction hs arbitrary: m0) (auto simp: mm_get_set)

lemma getAll_new_RawHeaders:
  "RawHeaders_getAll (new_RawHeaders hs) name =
     map snd (filter (\<lambda>h. toLowerCase (fst h) = toLowerCase name) hs)"
  by (simp add: RawHeaders_getAll_def new_RawHeaders_def mm_get_foldl) (simp add: mm_get_def)

lemma mm_keys_mm_set: "set (mm_keys (mm_set k v m)) = insert k (set (mm_keys m))"
  by (induction k v m rule: mm_set.induct) (auto simp: mm_keys_def)

lemma mm_keys_foldl:
  "set (mm_keys (foldl (\<lambda>m h. mm_set (toLowerCase (fst h)) (snd h) m) m0 hs)) =
     set (mm_keys m0) \<union> toLowerCase ` fst ` set hs"
  by (induction hs arbitrary: m0) (auto simp: mm_keys_mm_set)

lemma RawHeaders_get_key:
  assumes "k \<in> set (mm_keys (headersMap (new_RawHeaders hs)))"
  shows "RawHeaders_get (new_RawHeaders hs) k \<noteq> None"
proof -
  from assms have "k \<in> toLowerCase ` fst ` set hs"
    using mm_keys_foldl [of "[]" hs] by (simp add: new_RawHeaders_def mm_keys_def)
  then obtain h where h: "h \<in> set hs" "k = toLowerCase (fst h)"
    by auto
  then have "h \<in> set (filter (\<lambda>h. toLowerCase (fst h) = toLowerCase k) hs)"
    by (simp add: toLowerCase_idem)
  then have "filter (\<lambda>h. toLowerCase (fst h) = toLowerCase k) hs \<noteq> []"
    by (metis empty_iff list.set(1))
  then have "RawHeaders_getAll (new_RawHeaders hs) k \<noteq> []"
    by (simp add: getAll_new_RawHeaders)
  then show ?thesis by (simp add: RawHeaders_get_def Let_def)
qed

lemma map_of_obj_set: "map_of (obj_set k v m) = (map_of m)(k \<mapsto> v)"
  by (induction m) auto

lemma map_fst_obj_set:
  "map fst (obj_set k v m) = (if k \<in> fst ` set m then map fst m else map fst m @ [k])"
  by (induction k v m rule: obj_set.induct) (auto simp: rev_image_eqI)

lemma map_of_headers_fold:
  "map_of (foldl (\<lambda>result name. case g name of Some v \<Rightarrow> obj_set name v result | None \<Rightarrow> result) acc ks) k =
     (if k \<in> set ks \<and> g k \<noteq> None then g k else map_of acc k)"
  by (induction ks arbitrary: acc) (auto simp: map_of_obj_set split: option.splits)

lemma mm_get_not_key: "k \<notin> set (mm_keys m) \<Longrightarrow> mm_get k m = []"
  by (simp add: mm_get_def mm_keys_def map_of_eq_None_iff[THEN iffD2] image_iff split: option.splits)

lemma headers_lookup_lower:
  assumes "toLowerCase k = k"
  shows "map_of (RawHeaders_headers rh) k = RawHeaders_get rh k"
proof (cases "k \<in> set (mm_keys (headersMap rh))")
  case True
  then show ?thesis by (simp add: RawHeaders_headers_def map_of_headers_fold)
next
  case False
  then have "RawHeaders_get rh k = None"
    using assms by (simp add: RawHeaders_get_def RawHeaders_getAll_def mm_get_not_key)
  with False show ?thesis by (simp add: RawHeaders_headers_def map_of_headers_fold)
qed

lemma content_type_lower: "toLowerCase ''content-type'' = ''content-type''"
  by code_simp

text \<open>
  Claim C7. For every header array, \<^verbatim>\<open>getAll(name)\<close> of the store built from it is
  the list of the values of the entries whose name equals \<open>name\<close> up to letter case, in
  the order of the array; \<^verbatim>\<open>get(name)\<close> is \<^verbatim>\<open>null\<close> when there is none, and
  otherwise these values joined with a line feed when \<open>name\<close> is \<^verbatim>\<open>set-cookie\<close> up to
  case, and with a comma and a space otherwise.
\<close>

theorem RawHeaders_lookup:
  "(let values = map snd (filter (\<lambda>h. toLowerCase (fst h) = toLowerCase name) hs) in
      RawHeaders_getAll (new_RawHeaders hs) name = values \<and>
      RawHeaders_get (new_RawHeaders hs) name =
        (if values = [] then None
         else Some (join (if toLowerCase name = ''set-cookie'' then ''\<newline>'' else '', '') values)))"
  by (simp add: Let_def RawHeaders_get_def getAll_new_RawHeaders)

theorem RawHeaders_lookup_witness:
  "RawHeaders_getAll (new_RawHeaders [(''X-A'', ''1''), (''x-a'', ''2'')]) ''X-a'' = [''1'', ''2''] \<and>
   RawHeaders_get (new_RawHeaders [(''Set-Cookie'', ''a=1''), (''set-cookie'', ''b=2'')]) ''Set-Cookie''
     = Some ''a=1\<newline>b=2'' \<and>
   RawHeaders_get (new_RawHeaders [(''X-A'', ''a=1''), (''x-a'', ''b=2'')]) ''x-a'' = Some ''a=1, b=2'' \<and>
   RawHeaders_get (new_RawHeaders [(''X-A'', ''a=1''), (''x-a'', ''b=2'')]) ''x-b'' = None"
proof -
  let ?h1 = "[(''X-A'', ''1''), (''x-a'', ''2'')]"
  let ?h2 = "[(''Set-Cookie'', ''a=1''), (''set-cookie'', ''b=2'')]"
  let ?h3 = "[(''X-A'', ''a=1''), (''x-a'', ''b=2'')]"
  note all = RawHeaders_lookup [unfolded Let_def, THEN conjunct1]
  note one = RawHeaders_lookup [unfolded Let_def, THEN conjunct2]
  have "RawHeaders_getAll (new_RawHeaders ?h1) ''X-a'' =
      map snd (filter (\<lambda>h. toLowerCase (fst h) = toLowerCase ''X-a'') ?h1)"
    by (rule all)
  also have "\<dots> = [''1'', ''2'']"
    by code_simp
  finally have a: "RawHeaders_getAll (new_RawHeaders ?h1) ''X-a'' = [''1'', ''2'']" .
  have b: "RawHeaders_get (new_RawHeaders ?h2) ''Set-Cookie'' = Some ''a=1\<newline>b=2''"
    by (subst one) code_simp
  have c: "RawHeaders_get (new_RawHeaders ?h3) ''x-a'' = Some ''a=1, b=2''"
    by (subst one) code_simp
  have d: "RawHeaders_get (new_RawHeaders ?h3) ''x-b'' = None"
    by (subst one) code_simp
  from a b c d show ?thesis by (intro conjI)
qed

subsection \<open>Request accessors\<close>

lemma utf8_scan_ascii:
  "\<forall>c \<in> set s. (of_char c :: nat) < 128 \<Longrightarrow> utf8_scan 0 lo hi pending s = s"
  by (induction s arbitrary: lo hi pending) auto

lemma utf8_decode_ascii: "is_ascii s \<Longrightarrow> utf8_decode s = s"
  by (simp add: utf8_decode_def is_ascii_def utf8_scan_ascii list_all_iff)

lemma utf8_lead_pos: "utf8_lead b = Some (n, lo, hi) \<Longrightarrow> 0 < n"
  by (auto simp: utf8_lead_def split: if_splits)

lemma utf8_scan_Nil_iff: "utf8_scan n lo hi pending s = [] \<longleftrightarrow> s = [] \<and> n = 0"
  by (induction n lo hi pending s rule: utf8_scan.induct)
    (auto simp: replacement_char_def dest: utf8_lead_pos split: option.splits)

lemma utf8_decode_Nil_iff: "utf8_decode s = [] \<longleftrightarrow> s = []"
  by (simp add: utf8_decode_def utf8_scan_Nil_iff)

lemma toString_utf8_Nil_iff: "toString_utf8 b = [] \<longleftrightarrow> b = []"
  by (simp add: toString_utf8_def utf8_decode_Nil_iff)

lemma or_else_empty: "or_else (Some []) b = b"
  by (simp add: or_else_def)

lemma applyFallbackOverrides_url:
  "\<not> truthy_str (fo_url ov) \<Longrightarrow>
     so_url (fallbackOverrides (Request_applyFallbackOverrides ov r)) = so_url (fallbackOverrides r)"
  by (simp add: Request_applyFallbackOverrides_def Let_def split: option.splits postData_arg.splits)

lemma applyFallbackOverrides_method:
  "\<not> truthy_str (fo_method ov) \<Longrightarrow>
     so_method (fallbackOverrides (Request_applyFallbackOverrides ov r)) = so_method (fallbackOverrides r)"
  by (simp add: Request_applyFallbackOverrides_def Let_def split: option.splits postData_arg.splits)

lemma applyFallbackOverrides_initializer:
  "initializer (Request_applyFallbackOverrides ov r) = initializer r"
  by (simp add: Request_applyFallbackOverrides_def Let_def)

text \<open>
  Claim C10. When the override overlay of a \<^verbatim>\<open>Request\<close> holds the empty string for the
  url (the method), \<^verbatim>\<open>url()\<close> (\<^verbatim>\<open>method()\<close>) returns the captured value; \<^verbatim>\<open>postData()\<close>
  is \<^verbatim>\<open>null\<close> when the overridden body is empty, and when there is no override and the
  captured body is empty. An override with an empty url or method leaves \<^verbatim>\<open>url()\<close> and
  \<^verbatim>\<open>method()\<close> as they were: presence is tested by truthiness.
\<close>

theorem Request_empty_override:
  "(so_url (fallbackOverrides r) = Some [] \<longrightarrow> Request_url r = init_url (initializer r)) \<and>
   (so_method (fallbackOverrides r) = Some [] \<longrightarrow> Request_method r = init_method (initializer r)) \<and>
   (so_postDataBuffer (fallbackOverrides r) = Some [] \<longrightarrow> Request_postData r = None) \<and>
   (so_postDataBuffer (fallbackOverrides r) = None \<and> init_postData (initializer r) = Some [] \<longrightarrow>
      Request_postData r = None) \<and>
   (fo_url ov = Some [] \<longrightarrow> Request_url (Request_applyFallbackOverrides ov r) = Request_url r) \<and>
   (fo_method ov = Some [] \<longrightarrow> Request_method (Request_applyFallbackOverrides ov r) = Request_method r)"
  by (simp add: Request_url_def Request_method_def Request_postData_def Request_postDataBuffer_def
      or_else_empty toString_utf8_def utf8_decode_def applyFallbackOverrides_url applyFallbackOverrides_method
      applyFallbackOverrides_initializer truthy_str_def)

theorem Request_empty_override_witness:
  "so_url (fallbackOverrides ex_request) = Some [] \<and>
   Request_url ex_request = ''http://example.com/'' \<and>
   so_method (fallbackOverrides ex_request) = Some [] \<and>
   Request_method ex_request = ''POST'' \<and>
   so_postDataBuffer (fallbackOverrides ex_request) = Some [] \<and>
   Request_postData ex_request = None \<and>
   so_postDataBuffer (fallbackOverrides (ex_request\<lparr>fallbackOverrides := empty_overrides\<rparr>)) = None \<and>
   init_postData (initializer (ex_request\<lparr>fallbackOverrides := empty_overrides\<rparr>)) = Some [] \<and>
   Request_postData (ex_request\<lparr>fallbackOverrides := empty_overrides\<rparr>) = None \<and>
   fo_url ex_overrides = Some [] \<and> fo_method ex_overrides = Some [] \<and>
   Request_url (Request_applyFallbackOverrides ex_overrides (ex_request\<lparr>fallbackOverrides := empty_overrides\<rparr>))
     = ''http://example.com/'' \<and>
   Request_method (Request_applyFallbackOverrides ex_overrides (ex_request\<lparr>fallbackOverrides := empty_overrides\<rparr>))
     = ''POST''"
proof -
  let ?r = "ex_request\<lparr>fallbackOverrides := empty_overrides\<rparr>"
  have h: "so_url (fallbackOverrides ex_request) = Some []"
    "so_method (fallbackOverrides ex_request) = Some []"
    "so_postDataBuffer (fallbackOverrides ex_request) = Some []"
    "so_postDataBuffer (fallbackOverrides ?r) = None"
    "init_postData (initializer ?r) = Some []"
    "fo_url ex_overrides = Some []" "fo_method ex_overrides = Some []"
    by (simp_all add: ex_request_def ex_overrides_def ex_init_def empty_overrides_def)
  have v: "init_url (initializer ex_request) = ''http://example.com/''"
    "init_method (initializer ex_request) = ''POST''"
    "Request_url ?r = ''http://example.com/''" "Request_method ?r = ''POST''"
    by (simp_all add: ex_request_def ex_init_def Request_url_def Request_method_def or_else_def
        empty_overrides_def)
  from Request_empty_override [of ex_request ex_overrides] h v
  have a: "Request_url ex_request = ''http://example.com/''" "Request_method ex_request = ''POST''"
    "Request_postData ex_request = None"
    by simp_all
  from Request_empty_override [of ?r ex_overrides] h v
  have b: "Request_postData ?r = None"
    "Request_url (Request_applyFallbackOverrides ex_overrides ?r) = ''http://example.com/''"
    "Request_method (Request_applyFallbackOverrides ex_overrides ?r) = ''POST''"
    by simp_all
  from h a b show ?thesis by (intro conjI)
qed

lemma Request_headers_content_type:
  "map_of (Request_headers r) ''content-type'' =
     RawHeaders_get (case so_headers (fallbackOverrides r) of
                       Some h \<Rightarrow> fromHeadersObjectLossy h
                     | None \<Rightarrow> provisionalHeaders r) ''content-type''"
  by (simp add: Request_headers_def headers_lookup_lower content_type_lower split: option.splits)

lemma starts_with_iff: "starts_with p s \<longleftrightarrow> (\<exists>post. s = p @ post)"
  by (induction p s rule: starts_with.induct) auto

lemma str_includes_iff: "str_includes s p \<longleftrightarrow> (\<exists>pre post. s = pre @ p @ post)"
proof (induction s)
  case Nil
  show ?case by auto
next
  case (Cons c cs)
  have "(\<exists>pre post. c # cs = pre @ p @ post) \<longleftrightarrow>
        (\<exists>post. c # cs = p @ post) \<or> (\<exists>pre post. cs = pre @ p @ post)"
  proof
    assume "\<exists>pre post. c # cs = pre @ p @ post"
    then obtain pre post where e: "c # cs = pre @ p @ post" by blast
    show "(\<exists>post. c # cs = p @ post) \<or> (\<exists>pre post. cs = pre @ p @ post)"
    proof (cases pre)
      case Nil
      with e show ?thesis by auto
    next
      case (Cons x pre')
      with e have "cs = pre' @ p @ post" by simp
      then show ?thesis by blast
    qed
  next
    assume "(\<exists>post. c # cs = p @ post) \<or> (\<exists>pre post. cs = pre @ p @ post)"
    then show "\<exists>pre post. c # cs = pre @ p @ post"
    proof
      assume "\<exists>post. c # cs = p @ post"
      then obtain post where "c # cs = [] @ p @ post" by auto
      then show ?thesis by blast
    next
      assume "\<exists>pre post. cs = pre @ p @ post"
      then obtain pre post where "c # cs = (c # pre) @ p @ post" by auto
      then show ?thesis by blast
    qed
  qed
  with Cons show ?case by (simp add: starts_with_iff)
qed

lemma percent_decode_plain: "c \<noteq> CHR ''%'' \<Longrightarrow> percent_decode (c # cs) = c # percent_decode cs"
proof (cases cs)
  case Nil
  then show ?thesis by simp
next
  case (Cons h t)
  assume "c \<noteq> CHR ''%''"
  with Cons show ?thesis by (cases t) simp_all
qed

lemma percent_decode_escape:
  "hex_value h = Some a \<Longrightarrow> hex_value l = Some b \<Longrightarrow>
     percent_decode (CHR ''%'' # h # l # cs) = char_of (16 * a + b) # percent_decode cs"
  by simp

lemma hex_value_hex_upper: "d < 16 \<Longrightarrow> hex_value (hex_upper d) = Some d"
  by (auto simp: hex_value_def hex_upper_def Let_def)

lemma char_of_div_mod: "char_of (16 * ((of_char c :: nat) div 16) + of_char c mod 16) = c"
  by simp

lemma of_char_less_256: "(of_char c :: nat) < 256"
  by (metis of_char_mod_256 mod_less_divisor zero_less_numeral)

lemma hex_upper_not_plus: "d < 16 \<Longrightarrow> hex_upper d \<noteq> CHR ''+''"
proof
  assume "d < 16" "hex_upper d = CHR ''+''"
  then have "(of_char (hex_upper d) :: nat) = 43" by simp
  with \<open>d < 16\<close> show False by (auto simp: hex_upper_def split: if_splits)
qed

lemma decode_encode_char:
  "percent_decode (map plus_to_space (form_encode_char c @ rest)) =
     c # percent_decode (map plus_to_space rest)"
proof -
  have d: "(of_char c :: nat) div 16 < 16"
    using of_char_less_256 [of c] by arith
  show ?thesis
  proof (cases "c = CHR '' ''")
    case True
    then show ?thesis by (simp add: form_encode_char_def percent_decode_plain plus_to_space_def)
  next
    case False
    show ?thesis
    proof (cases "form_unreserved c")
      case True
      then have "c \<noteq> CHR ''+''" "c \<noteq> CHR ''%''"
        by (auto simp: form_unreserved_def)
      with True False show ?thesis
        by (simp add: form_encode_char_def percent_decode_plain plus_to_space_def)
    next
      case u: False
      with False d show ?thesis
        by (simp add: form_encode_char_def hex_upper_not_plus hex_value_hex_upper plus_to_space_def
            percent_decode_escape char_of_div_mod del: percent_decode.simps)
    qed
  qed
qed

lemma decode_encode: "percent_decode (map plus_to_space (form_encode s)) = s"
proof (induction s)
  case Nil
  show ?case by (simp add: form_encode_def)
next
  case (Cons c s)
  have "form_encode (c # s) = form_encode_char c @ form_encode s"
    by (simp add: form_encode_def)
  with Cons show ?case by (simp only: decode_encode_char)
qed

lemma form_component_encode: "is_ascii s \<Longrightarrow> form_component (form_encode s) = s"
  by (simp add: form_component_def decode_encode utf8_decode_ascii)

lemma of_char_hex_upper:
  "d < 16 \<Longrightarrow> (of_char (hex_upper d) :: nat) = (if d < 10 then 48 + d else 55 + d)"
  by (simp add: hex_upper_def)

lemma form_encode_char_safe:
  assumes "x \<in> set (form_encode_char c)"
  shows "x \<noteq> CHR ''='' \<and> x \<noteq> CHR ''&'' \<and> x \<noteq> CHR ''?''"
proof -
  have d: "(of_char c :: nat) div 16 < 16" "(of_char c :: nat) mod 16 < 16"
    using of_char_less_256 [of c] by arith+
  have h: "\<And>d. d < 16 \<Longrightarrow> hex_upper d \<noteq> CHR ''='' \<and> hex_upper d \<noteq> CHR ''&'' \<and> hex_upper d \<noteq> CHR ''?''"
  proof -
    fix d :: nat assume "d < 16"
    then have "(of_char (hex_upper d) :: nat) \<noteq> 61 \<and> (of_char (hex_upper d) :: nat) \<noteq> 38 \<and>
        (of_char (hex_upper d) :: nat) \<noteq> 63"
      by (auto simp: of_char_hex_upper)
    then show "hex_upper d \<noteq> CHR ''='' \<and> hex_upper d \<noteq> CHR ''&'' \<and> hex_upper d \<noteq> CHR ''?''"
      by auto
  qed
  from assms h [OF d(1)] h [OF d(2)] show ?thesis
    by (auto simp: form_encode_char_def form_unreserved_def split: if_splits)
qed

lemma form_encode_safe:
  "x \<in> set (form_encode s) \<Longrightarrow> x \<noteq> CHR ''='' \<and> x \<noteq> CHR ''&'' \<and> x \<noteq> CHR ''?''"
  by (auto simp: form_encode_def dest: form_encode_char_safe)

lemma form_pair_encode:
  "form_pair (form_encode n @ CHR ''='' # form_encode v) =
     (form_component (form_encode n), form_component (form_encode v))"
proof -
  have a: "\<And>x. x \<in> set (form_encode n) \<Longrightarrow> x \<noteq> CHR ''=''"
    by (auto dest: form_encode_safe)
  have "takeWhile (\<lambda>c. c \<noteq> CHR ''='') (form_encode n @ CHR ''='' # form_encode v) = form_encode n"
    using a by simp
  moreover have "dropWhile (\<lambda>c. c \<noteq> CHR ''='') (form_encode n @ CHR ''='' # form_encode v) =
      CHR ''='' # form_encode v"
    using a by simp
  ultimately show ?thesis by (simp add: form_pair_def)
qed

lemma split_on_piece: "d \<notin> set p \<Longrightarrow> split_on d (p @ d # rest) = p # split_on d rest"
  by (induction p) auto

lemma split_on_last: "d \<notin> set p \<Longrightarrow> split_on d p = [p]"
  by (induction p) auto

lemma split_on_join:
  "ps \<noteq> [] \<Longrightarrow> \<forall>p \<in> set ps. d \<notin> set p \<Longrightarrow> split_on d (join [d] ps) = ps"
proof (induction "[d]" ps rule: join.induct)
  case 1
  then show ?case by simp
next
  case (2 x)
  then show ?case by (simp add: split_on_last)
next
  case (3 x y ys)
  then show ?case by (simp add: split_on_piece)
qed

lemma join_hd:
  "ps \<noteq> [] \<Longrightarrow> hd ps \<noteq> [] \<Longrightarrow> join sep ps \<noteq> [] \<and> hd (join sep ps) = hd (hd ps)"
  by (induction sep ps rule: join.induct) auto

lemma URLSearchParams_serialize:
  assumes "list_all (\<lambda>p. is_ascii (fst p) \<and> is_ascii (snd p)) ps"
  shows "URLSearchParams (form_serialize ps) = ps"
proof (cases ps)
  case Nil
  then show ?thesis by (simp add: URLSearchParams_def form_serialize_def)
next
  case (Cons q qs)
  let ?piece = "\<lambda>p. form_encode (fst p) @ ''='' @ form_encode (snd p)"
  let ?pieces = "map ?piece ps"
  have ne: "?pieces \<noteq> []" using Cons by simp
  have amp: "\<forall>p \<in> set ?pieces. CHR ''&'' \<notin> set p"
    by (auto dest: form_encode_safe)
  have nonempty: "\<forall>p \<in> set ?pieces. p \<noteq> []" by auto
  have first: "hd (hd ?pieces) \<noteq> CHR ''?''"
    using Cons form_encode_safe [of "CHR ''?''" "fst q"]
    by (cases "form_encode (fst q)") auto
  have "hd ?pieces \<noteq> []" using Cons by simp
  with ne have j: "form_serialize ps \<noteq> []" "hd (form_serialize ps) = hd (hd ?pieces)"
    using join_hd [of ?pieces "''&''"] by (simp_all add: form_serialize_def)
  then obtain c cs where s: "form_serialize ps = c # cs" "c \<noteq> CHR ''?''"
    using first by (cases "form_serialize ps") auto
  have split: "split_on CHR ''&'' (form_serialize ps) = ?pieces"
    unfolding form_serialize_def using ne amp by (rule split_on_join)
  have "URLSearchParams (form_serialize ps) = map form_pair (filter (\<lambda>piece. piece \<noteq> []) ?pieces)"
    using s split by (simp add: URLSearchParams_def)
  also have "filter (\<lambda>piece. piece \<noteq> []) ?pieces = ?pieces"
    using nonempty by (simp add: filter_id_conv)
  also have "map form_pair ?pieces = map (\<lambda>p. (form_component (form_encode (fst p)),
      form_component (form_encode (snd p)))) ps"
    by (simp add: form_pair_encode)
  also have "\<dots> = ps"
    using assms by (induction ps) (simp_all add: form_component_encode)
  finally show ?thesis .
qed

lemma distinct_obj_set: "distinct (map fst m) \<Longrightarrow> distinct (map fst (obj_set k v m))"
  by (simp add: map_fst_obj_set)

lemma entries_fold_distinct:
  "distinct (map fst acc) \<Longrightarrow>
     distinct (map fst (foldl (\<lambda>entries (k, v). entries_set k (JStr v) entries) acc ps))"
  by (induction ps arbitrary: acc) (auto simp: entries_set_def distinct_obj_set)

lemma entries_fold_lookup:
  "map_of (foldl (\<lambda>entries (k, v). entries_set k (JStr v) entries) acc ps) k =
     (if k = ''__proto__'' then map_of acc k
      else (case map_of (rev ps) k of Some v \<Rightarrow> Some (JStr v) | None \<Rightarrow> map_of acc k))"
proof (induction ps arbitrary: acc)
  case Nil
  show ?case by simp
next
  case (Cons p ps)
  obtain n v where p: "p = (n, v)" by (cases p)
  let ?f = "\<lambda>entries (k, v). entries_set k (JStr v) entries"
  have step: "foldl ?f acc (p # ps) = foldl ?f (entries_set n (JStr v) acc) ps"
    by (simp add: p)
  have acc': "map_of (entries_set n (JStr v) acc) k =
      (if n = ''__proto__'' \<or> k \<noteq> n then map_of acc k else Some (JStr v))"
    by (simp add: entries_set_def map_of_obj_set)
  have last: "map_of (rev (p # ps)) k =
      (case map_of (rev ps) k of Some w \<Rightarrow> Some w | None \<Rightarrow> if k = n then Some v else None)"
    by (simp add: p map_add_def split: option.splits)
  show ?case
    unfolding step Cons.IH acc' last
    by (simp split: option.splits)
qed

text \<open>
  Claim C6. \<^verbatim>\<open>postDataJSON()\<close> returns \<^verbatim>\<open>null\<close> when there is no body, or an empty
  one. A non-empty body has a non-empty text. When the content-type header (of the
  override headers if any, else of the provisional ones) has
  \<^verbatim>\<open>application/x-www-form-urlencoded\<close> somewhere inside it, the result is an object
  with one property per name of the form-decoded pairs other than \<^verbatim>\<open>__proto__\<close>, holding
  the value of the last pair with that name, as a string. Otherwise the result is the
  text parsed as JSON, and the call fails with ``POST data is not a valid JSON object''
  when the parse fails. Form decoding inverts the form serializer: the body that
  carries given ASCII pairs decodes to these pairs (so \<^verbatim>\<open>&\<close>, \<^verbatim>\<open>=\<close>, \<^verbatim>\<open>+\<close> and
  \<^verbatim>\<open>%XX\<close> are read as the URL standard says). The text of ASCII bytes is these bytes.
\<close>

theorem Request_postDataJSON_cases:
  "(Request_postDataBuffer r = None \<or> Request_postDataBuffer r = Some [] \<longrightarrow>
      Request_postDataJSON JSON_parse r = Inr JNull) \<and>
   (Request_postDataBuffer r = Some b \<and> b \<noteq> [] \<longrightarrow>
      (let text = toString_utf8 b;
           contentType = RawHeaders_get (case so_headers (fallbackOverrides r) of
                                           Some h \<Rightarrow> fromHeadersObjectLossy h
                                         | None \<Rightarrow> provisionalHeaders r) ''content-type'';
           form = (\<exists>ct pre post. contentType = Some ct \<and>
                     ct = pre @ ''application/x-www-form-urlencoded'' @ post)
       in text \<noteq> [] \<and>
          (form \<longrightarrow>
             (\<exists>entries. Request_postDataJSON JSON_parse r = Inr (JObj entries) \<and>
                 distinct (map fst entries) \<and>
                 (\<forall>k. map_of entries k =
                    (if k = ''__proto__'' then None
                     else map_option JStr (map_of (rev (URLSearchParams text)) k))))) \<and>
          (\<not> form \<longrightarrow>
             Request_postDataJSON JSON_parse r =
               (case JSON_parse text of
                  Some j \<Rightarrow> Inr j
                | None \<Rightarrow> Inl (Error (''POST data is not a valid JSON object: '' @ text)))))) \<and>
   (list_all (\<lambda>p. is_ascii (fst p) \<and> is_ascii (snd p)) ps \<longrightarrow>
      URLSearchParams (form_serialize ps) = ps) \<and>
   (is_ascii (map (\<lambda>x. char_of (unat x)) b') \<longrightarrow>
      toString_utf8 b' = map (\<lambda>x. char_of (unat x)) b')"
proof (intro conjI impI)
  assume "Request_postDataBuffer r = None \<or> Request_postDataBuffer r = Some []"
  then show "Request_postDataJSON JSON_parse r = Inr JNull"
    by (auto simp: Request_postDataJSON_def Request_postData_def toString_utf8_Nil_iff)
next
  assume body: "Request_postDataBuffer r = Some b \<and> b \<noteq> []"
  let ?text = "toString_utf8 b"
  let ?ct = "RawHeaders_get (case so_headers (fallbackOverrides r) of
                               Some h \<Rightarrow> fromHeadersObjectLossy h
                             | None \<Rightarrow> provisionalHeaders r) ''content-type''"
  let ?form = "\<exists>ct pre post. ?ct = Some ct \<and> ct = pre @ ''application/x-www-form-urlencoded'' @ post"
  let ?entries = "foldl (\<lambda>entries (k, v). entries_set k (JStr v) entries) [] (URLSearchParams ?text)"
  from body have nonempty: "?text \<noteq> []" and pd: "Request_postData r = Some ?text"
    by (simp_all add: Request_postData_def toString_utf8_Nil_iff Let_def)
  define formType where "formType \<longleftrightarrow>
      (case map_of (Request_headers r) ''content-type'' of
         Some contentType \<Rightarrow> str_includes contentType ''application/x-www-form-urlencoded''
       | None \<Rightarrow> False)"
  have eq: "Request_postDataJSON JSON_parse r =
      (if formType then Inr (JObj ?entries)
       else (case JSON_parse ?text of
               Some j \<Rightarrow> Inr j
             | None \<Rightarrow> Inl (Error (''POST data is not a valid JSON object: '' @ ?text))))"
    unfolding formType_def by (simp add: Request_postDataJSON_def pd)
  have test: "formType \<longleftrightarrow> ?form"
    unfolding formType_def
    by (simp add: Request_headers_content_type str_includes_iff split: option.splits)
  have a: "?form \<longrightarrow>
      (\<exists>entries. Request_postDataJSON JSON_parse r = Inr (JObj entries) \<and>
          distinct (map fst entries) \<and>
          (\<forall>k. map_of entries k =
             (if k = ''__proto__'' then None
              else map_option JStr (map_of (rev (URLSearchParams ?text)) k))))"
  proof
    assume ?form
    with test have formType by blast
    with eq have "Request_postDataJSON JSON_parse r = Inr (JObj ?entries)"
      by simp
    moreover have "distinct (map fst ?entries)"
      by (rule entries_fold_distinct) simp
    moreover have "\<forall>k. map_of ?entries k =
        (if k = ''__proto__'' then None
         else map_option JStr (map_of (rev (URLSearchParams ?text)) k))"
      by (simp add: entries_fold_lookup split: option.splits)
    ultimately show "\<exists>entries. Request_postDataJSON JSON_parse r = Inr (JObj entries) \<and>
          distinct (map fst entries) \<and>
          (\<forall>k. map_of entries k =
             (if k = ''__proto__'' then None
              else map_option JStr (map_of (rev (URLSearchParams ?text)) k)))"
      by blast
  qed
  have b: "\<not> ?form \<longrightarrow>
      Request_postDataJSON JSON_parse r =
        (case JSON_parse ?text of
           Some j \<Rightarrow> Inr j
         | None \<Rightarrow> Inl (Error (''POST data is not a valid JSON object: '' @ ?text)))"
  proof
    assume "\<not> ?form"
    with test have "\<not> formType" by blast
    with eq show "Request_postDataJSON JSON_parse r =
        (case JSON_parse ?text of
           Some j \<Rightarrow> Inr j
         | None \<Rightarrow> Inl (Error (''POST data is not a valid JSON object: '' @ ?text)))"
      by simp
  qed
  from nonempty a b show "let text = toString_utf8 b;
           contentType = ?ct;
           form = (\<exists>ct pre post. contentType = Some ct \<and>
                     ct = pre @ ''application/x-www-form-urlencoded'' @ post)
       in text \<noteq> [] \<and>
          (form \<longrightarrow>
             (\<exists>entries. Request_postDataJSON JSON_parse r = Inr (JObj entries) \<and>
                 distinct (map fst entries) \<and>
                 (\<forall>k. map_of entries k =
                    (if k = ''__proto__'' then None
                     else map_option JStr (map_of (rev (URLSearchParams text)) k))))) \<and>
          (\<not> form \<longrightarrow>
             Request_postDataJSON JSON_parse r =
               (case JSON_parse text of
                  Some j \<Rightarrow> Inr j
                | None \<Rightarrow> Inl (Error (''POST data is not a valid JSON object: '' @ text))))"
    unfolding Let_def by (intro conjI)
next
  assume "list_all (\<lambda>p. is_ascii (fst p) \<and> is_ascii (snd p)) ps"
  then show "URLSearchParams (form_serialize ps) = ps"
    by (rule URLSearchParams_serialize)
next
  assume "is_ascii (map (\<lambda>x. char_of (unat x)) b')"
  then show "toString_utf8 b' = map (\<lambda>x. char_of (unat x)) b'"
    by (simp add: toString_utf8_def utf8_decode_ascii)
qed


theorem Request_postDataJSON_cases_witness:
  "(\<exists>entries.
      Request_postDataJSON ex_parse
        (ex_post [(''Content-Type'', ''application/x-www-form-urlencoded; charset=UTF-8'')]
           (Some (Buffer_from_utf8 ''a=x+y%21&b=%E4&__proto__=z&a=2&c&d=%C3%A9''))) = Inr (JObj entries) \<and>
      distinct (map fst entries) \<and>
      map_of entries ''a'' = Some (JStr ''2'') \<and>
      map_of entries ''b'' = Some (JStr [CHR 0xEF, CHR 0xBF, CHR 0xBD]) \<and>
      map_of entries ''c'' = Some (JStr []) \<and>
      map_of entries ''d'' = Some (JStr [CHR 0xC3, CHR 0xA9]) \<and>
      map_of entries ''__proto__'' = None \<and>
      map_of entries ''e'' = None) \<and>
   Request_postDataJSON ex_parse
     (ex_post [(''Content-Type'', ''application/x-www-form-urlencoded; charset=UTF-8'')]
        (Some (Buffer_from_utf8 ''a=x+y%21&b=%E4&__proto__=z&a=2&c&d=%C3%A9'')))
     = Inr (JObj [(''a'', JStr ''2''), (''b'', JStr [CHR 0xEF, CHR 0xBF, CHR 0xBD]),
                  (''c'', JStr []), (''d'', JStr [CHR 0xC3, CHR 0xA9])]) \<and>
   Request_postDataJSON ex_parse
     (ex_post [] (Some (Buffer_from_utf8 [CHR ''{'', CHR 0x22, CHR ''a'', CHR 0x22, CHR '':'', CHR ''1'', CHR ''}''])))
     = Inr (JObj [(''a'', JNum 1)]) \<and>
   Request_postDataJSON ex_parse
     (ex_post [(''Content-Type'', ''text/plain'')] (Some (Buffer_from_utf8 ''not json'')))
     = Inl (Error ''POST data is not a valid JSON object: not json'') \<and>
   Request_postDataJSON ex_parse (ex_post [] None) = Inr JNull \<and>
   Request_postDataJSON ex_parse (ex_post [] (Some [])) = Inr JNull \<and>
   URLSearchParams ''a+b=1%262%3D3&k=%25%3F'' = [(''a b'', ''1&2=3''), (''k'', ''%?'')] \<and>
   toString_utf8 [97, 61, 49] = ''a=1''"
proof -
  let ?formBody = "Buffer_from_utf8 ''a=x+y%21&b=%E4&__proto__=z&a=2&c&d=%C3%A9''"
  let ?formRequest = "ex_post [(''Content-Type'', ''application/x-www-form-urlencoded; charset=UTF-8'')]
      (Some ?formBody)"
  let ?jsonBody = "Buffer_from_utf8 [CHR ''{'', CHR 0x22, CHR ''a'', CHR 0x22, CHR '':'', CHR ''1'', CHR ''}'']"
  let ?jsonRequest = "ex_post [] (Some ?jsonBody)"
  let ?plainBody = "Buffer_from_utf8 ''not json''"
  let ?plainRequest = "ex_post [(''Content-Type'', ''text/plain'')] (Some ?plainBody)"
  let ?pairs = "[(''a b'', ''1&2=3''), (''k'', ''%?'')]"
  let ?bytes = "[97, 61, 49] :: Buffer"

  have formBuffer: "Request_postDataBuffer ?formRequest = Some ?formBody \<and> ?formBody \<noteq> []"
    by code_simp
  have formType: "\<exists>ct pre post.
      RawHeaders_get (case so_headers (fallbackOverrides ?formRequest) of
                        Some h \<Rightarrow> fromHeadersObjectLossy h
                      | None \<Rightarrow> provisionalHeaders ?formRequest) ''content-type'' = Some ct \<and>
      ct = pre @ ''application/x-www-form-urlencoded'' @ post"
    by (rule exI [of _ "''application/x-www-form-urlencoded; charset=UTF-8''"],
        rule exI [of _ "[]"], rule exI [of _ "''; charset=UTF-8''"]) code_simp
  note formCase = Request_postDataJSON_cases [where r = ?formRequest and b = ?formBody
      and JSON_parse = ex_parse and ps = ?pairs and b' = ?bytes,
      unfolded Let_def, THEN conjunct2, THEN conjunct1, THEN mp, OF formBuffer,
      THEN conjunct2, THEN conjunct1, THEN mp, OF formType]
  then obtain entries where
    res: "Request_postDataJSON ex_parse ?formRequest = Inr (JObj entries)" and
    dist: "distinct (map fst entries)" and
    look: "\<And>k. map_of entries k =
        (if k = ''__proto__'' then None
         else map_option JStr (map_of (rev (URLSearchParams (toString_utf8 ?formBody))) k))"
    by blast
  have la: "map_of entries ''a'' = Some (JStr ''2'')"
    by (subst look) code_simp
  have lb: "map_of entries ''b'' = Some (JStr [CHR 0xEF, CHR 0xBF, CHR 0xBD])"
    by (subst look) code_simp
  have lc: "map_of entries ''c'' = Some (JStr [])"
    by (subst look) code_simp
  have ld: "map_of entries ''d'' = Some (JStr [CHR 0xC3, CHR 0xA9])"
    by (subst look) code_simp
  have lp: "map_of entries ''__proto__'' = None"
    by (subst look) code_simp
  have le: "map_of entries ''e'' = None"
    by (subst look) code_simp
  from res dist la lb lc ld lp le have form: "\<exists>entries.
      Request_postDataJSON ex_parse ?formRequest = Inr (JObj entries) \<and>
      distinct (map fst entries) \<and>
      map_of entries ''a'' = Some (JStr ''2'') \<and>
      map_of entries ''b'' = Some (JStr [CHR 0xEF, CHR 0xBF, CHR 0xBD]) \<and>
      map_of entries ''c'' = Some (JStr []) \<and>
      map_of entries ''d'' = Some (JStr [CHR 0xC3, CHR 0xA9]) \<and>
      map_of entries ''__proto__'' = None \<and>
      map_of entries ''e'' = None"
    by blast
  have formValue: "Request_postDataJSON ex_parse ?formRequest =
      Inr (JObj [(''a'', JStr ''2''), (''b'', JStr [CHR 0xEF, CHR 0xBF, CHR 0xBD]),
                 (''c'', JStr []), (''d'', JStr [CHR 0xC3, CHR 0xA9])])"
    by code_simp

  have jsonBuffer: "Request_postDataBuffer ?jsonRequest = Some ?jsonBody \<and> ?jsonBody \<noteq> []"
    by code_simp
  have jsonHeader: "RawHeaders_get (case so_headers (fallbackOverrides ?jsonRequest) of
                        Some h \<Rightarrow> fromHeadersObjectLossy h
                      | None \<Rightarrow> provisionalHeaders ?jsonRequest) ''content-type'' = None"
    by code_simp
  have jsonType: "\<not> (\<exists>ct pre post.
      RawHeaders_get (case so_headers (fallbackOverrides ?jsonRequest) of
                        Some h \<Rightarrow> fromHeadersObjectLossy h
                      | None \<Rightarrow> provisionalHeaders ?jsonRequest) ''content-type'' = Some ct \<and>
      ct = pre @ ''application/x-www-form-urlencoded'' @ post)"
    unfolding jsonHeader by simp
  note jsonCase = Request_postDataJSON_cases [where r = ?jsonRequest and b = ?jsonBody
      and JSON_parse = ex_parse and ps = ?pairs and b' = ?bytes,
      unfolded Let_def, THEN conjunct2, THEN conjunct1, THEN mp, OF jsonBuffer,
      THEN conjunct2, THEN conjunct2, THEN mp, OF jsonType]
  have jsonParse: "(case ex_parse (toString_utf8 ?jsonBody) of
        Some j \<Rightarrow> Inr j
      | None \<Rightarrow> Inl (Error (''POST data is not a valid JSON object: '' @ toString_utf8 ?jsonBody))) =
      Inr (JObj [(''a'', JNum 1)])"
    by code_simp
  from jsonCase jsonParse
  have json: "Request_postDataJSON ex_parse ?jsonRequest = Inr (JObj [(''a'', JNum 1)])"
    by (rule trans)

  have plainBuffer: "Request_postDataBuffer ?plainRequest = Some ?plainBody \<and> ?plainBody \<noteq> []"
    by code_simp
  have plainHeader: "RawHeaders_get (case so_headers (fallbackOverrides ?plainRequest) of
                        Some h \<Rightarrow> fromHeadersObjectLossy h
                      | None \<Rightarrow> provisionalHeaders ?plainRequest) ''content-type'' = Some ''text/plain''"
    by code_simp
  have plainType: "\<not> (\<exists>ct pre post.
      RawHeaders_get (case so_headers (fallbackOverrides ?plainRequest) of
                        Some h \<Rightarrow> fromHeadersObjectLossy h
                      | None \<Rightarrow> provisionalHeaders ?plainRequest) ''content-type'' = Some ct \<and>
      ct = pre @ ''application/x-www-form-urlencoded'' @ post)"
  proof
    assume "\<exists>ct pre post.
      RawHeaders_get (case so_headers (fallbackOverrides ?plainRequest) of
                        Some h \<Rightarrow> fromHeadersObjectLossy h
                      | None \<Rightarrow> provisionalHeaders ?plainRequest) ''content-type'' = Some ct \<and>
      ct = pre @ ''application/x-www-form-urlencoded'' @ post"
    then obtain pre post where "''text/plain'' = pre @ ''application/x-www-form-urlencoded'' @ post"
      unfolding plainHeader by blast
    then have "length ''text/plain'' = length (pre @ ''application/x-www-form-urlencoded'' @ post)"
      by (rule arg_cong)
    then show False by simp
  qed
  note plainCase = Request_postDataJSON_cases [where r = ?plainRequest and b = ?plainBody
      and JSON_parse = ex_parse and ps = ?pairs and b' = ?bytes,
      unfolded Let_def, THEN conjunct2, THEN conjunct1, THEN mp, OF plainBuffer,
      THEN conjunct2, THEN conjunct2, THEN mp, OF plainType]
  have plainParse: "(case ex_parse (toString_utf8 ?plainBody) of
        Some j \<Rightarrow> Inr j
      | None \<Rightarrow> Inl (Error (''POST data is not a valid JSON object: '' @ toString_utf8 ?plainBody))) =
      Inl (Error ''POST data is not a valid JSON object: not json'')"
    by code_simp
  from plainCase plainParse
  have plain: "Request_postDataJSON ex_parse ?plainRequest =
      Inl (Error ''POST data is not a valid JSON object: not json'')"
    by (rule trans)

  have noBody: "Request_postDataBuffer (ex_post [] None) = None \<or>
      Request_postDataBuffer (ex_post [] None) = Some []"
    by code_simp
  note none = Request_postDataJSON_cases [where r = "ex_post [] None" and b = ?formBody
      and JSON_parse = ex_parse and ps = ?pairs and b' = ?bytes,
      THEN conjunct1, THEN mp, OF noBody]
  have emptyBody: "Request_postDataBuffer (ex_post [] (Some [])) = None \<or>
      Request_postDataBuffer (ex_post [] (Some [])) = Some []"
    by code_simp
  note empty = Request_postDataJSON_cases [where r = "ex_post [] (Some [])" and b = ?formBody
      and JSON_parse = ex_parse and ps = ?pairs and b' = ?bytes,
      THEN conjunct1, THEN mp, OF emptyBody]

  have asciiPairs: "list_all (\<lambda>p. is_ascii (fst p) \<and> is_ascii (snd p)) ?pairs"
    by code_simp
  have serialized: "form_serialize ?pairs = ''a+b=1%262%3D3&k=%25%3F''"
    by code_simp
  note roundTrip = Request_postDataJSON_cases [where r = ?formRequest and b = ?formBody
      and JSON_parse = ex_parse and ps = ?pairs and b' = ?bytes,
      THEN conjunct2, THEN conjunct2, THEN conjunct1, THEN mp, OF asciiPairs]
  from roundTrip have pairs: "URLSearchParams ''a+b=1%262%3D3&k=%25%3F'' = ?pairs"
    unfolding serialized .

  have asciiBytes: "is_ascii (map (\<lambda>x. char_of (unat x)) ?bytes)"
    by code_simp
  have chars: "map (\<lambda>x. char_of (unat x)) ?bytes = ''a=1''"
    by code_simp
  note asciiText = Request_postDataJSON_cases [where r = ?formRequest and b = ?formBody
      and JSON_parse = ex_parse and ps = ?pairs and b' = ?bytes,
      THEN conjunct2, THEN conjunct2, THEN conjunct2, THEN mp, OF asciiBytes]
  from asciiText chars have text_ascii: "toString_utf8 ?bytes = ''a=1''"
    by (rule trans)

  from form formValue json plain none empty pairs text_ascii show ?thesis
    by (intro conjI)
qed

subsection \<open>Redirect chains\<close>

lemma chain_inv_step:
  assumes "chain_inv s n st"
  shows "chain_inv s (Suc n) (chain_step st init)"
proof -
  obtain c p where st: "st = (c, p)" by (cases st)
  from assms st have len: "length c = length s + n"
    and p: "p = (if n = 0 then None else Some (length s + n - 1))"
    and old: "\<And>k. k < n \<Longrightarrow>
        redirectedFrom (c ! (length s + k)) = (if k = 0 then None else Some (length s + k - 1)) \<and>
        redirectedTo (c ! (length s + k)) = (if k + 1 < n then Some (length s + k + 1) else None)"
    by (simp_all add: chain_inv_def)
  show ?thesis
  proof (cases "n = 0")
    case True
    with len p st show ?thesis
      by (simp add: chain_inv_def chain_step_def new_Request_def Let_def nth_append)
  next
    case False
    then have p': "p = Some (length s + n - 1)" "length s + n - 1 < length c"
      using p len by simp_all
    have new: "fst (chain_step st init) =
        c[length s + n - 1 := (c ! (length s + n - 1))\<lparr>redirectedTo := Some (length c)\<rparr>] @
        [\<lparr> initializer = init\<lparr>init_redirectedFrom := p\<rparr>, redirectedFrom = p, redirectedTo = None,
           provisionalHeaders = new_RawHeaders (init_headers init),
           fallbackOverrides = empty_overrides \<rparr>]"
      and new2: "snd (chain_step st init) = Some (length c)"
      using st p' by (simp_all add: chain_step_def new_Request_def Let_def)
    show ?thesis
      unfolding chain_inv_def new new2
    proof (intro conjI allI impI)
      fix k assume k: "k < Suc n"
      show "redirectedFrom ((c[length s + n - 1 := (c ! (length s + n - 1))\<lparr>redirectedTo := Some (length c)\<rparr>] @
        [\<lparr> initializer = init\<lparr>init_redirectedFrom := p\<rparr>, redirectedFrom = p, redirectedTo = None,
           provisionalHeaders = new_RawHeaders (init_headers init),
           fallbackOverrides = empty_overrides \<rparr>]) ! (length s + k)) =
         (if k = 0 then None else Some (length s + k - 1))"
        using k old[of k] len p' False
        by (cases "k = n") (auto simp: nth_append nth_list_update)
      show "redirectedTo ((c[length s + n - 1 := (c ! (length s + n - 1))\<lparr>redirectedTo := Some (length c)\<rparr>] @
        [\<lparr> initializer = init\<lparr>init_redirectedFrom := p\<rparr>, redirectedFrom = p, redirectedTo = None,
           provisionalHeaders = new_RawHeaders (init_headers init),
           fallbackOverrides = empty_overrides \<rparr>]) ! (length s + k)) =
         (if k + 1 < Suc n then Some (length s + k + 1) else None)"
        using k old[of k] len p' False
        by (cases "k = n") (auto simp: nth_append nth_list_update)
    qed (use len False in simp_all)
  qed
qed

lemma chain_inv_foldl: "chain_inv s (length inits) (foldl chain_step (s, None) inits)"
proof (induction inits rule: rev_induct)
  case Nil
  show ?case by (simp add: chain_inv_def)
next
  case (snoc i inits)
  then show ?case by (simp add: chain_inv_step)
qed

lemma finalRequest_follow:
  assumes "length c = m + n"
    and "\<And>k. k < n \<Longrightarrow> redirectedTo (c ! (m + k)) = (if k + 1 < n then Some (m + k + 1) else None)"
    and "k < n"
  shows "Request_finalRequest c (m + k) = Some (m + n - 1)"
  using assms(3)
proof (induction "n - 1 - k" arbitrary: k)
  case 0
  then have "k = n - 1" by simp
  with 0 assms(1) assms(2)[of k] show ?case
    by (subst Request_finalRequest.simps) simp
next
  case (Suc d)
  then have lt: "Suc k < n" and d: "d = n - 1 - Suc k" by simp_all
  from Suc(1)[OF d lt] have rec: "Request_finalRequest c (Suc (m + k)) = Some (m + n - 1)" by simp
  from lt assms(2)[of k] have to: "redirectedTo (c ! (m + k)) = Some (Suc (m + k))" by simp
  from lt assms(1) have "m + k < length c" by simp
  with to rec show ?case
    by (subst Request_finalRequest.simps) simp
qed

text \<open>
  Claim C8. In a redirect chain built on any store, \<^verbatim>\<open>_finalRequest()\<close> of every element
  returns (and so terminates with) the last element, whose \<^verbatim>\<open>redirectedTo\<close> is
  \<^verbatim>\<open>null\<close>; \<^verbatim>\<open>redirectedFrom()\<close> of an element is the element before it, and
  \<^verbatim>\<open>null\<close> for the head; \<^verbatim>\<open>redirectedTo()\<close> is the element after it.
\<close>

theorem redirect_chain_links:
  assumes "k < length inits"
  shows "Request_finalRequest (redirect_chain s inits) (length s + k) = Some (length s + length inits - 1) \<and>
         redirectedTo (redirect_chain s inits ! (length s + length inits - 1)) = None \<and>
         redirectedFrom (redirect_chain s inits ! (length s + k)) =
           (if k = 0 then None else Some (length s + k - 1)) \<and>
         redirectedTo (redirect_chain s inits ! (length s + k)) =
           (if k + 1 < length inits then Some (length s + k + 1) else None)"
proof -
  have inv: "chain_inv s (length inits) (foldl chain_step (s, None) inits)"
    by (rule chain_inv_foldl)
  then have len: "length (redirect_chain s inits) = length s + length inits"
    and links: "\<And>j. j < length inits \<Longrightarrow>
       redirectedFrom (redirect_chain s inits ! (length s + j)) = (if j = 0 then None else Some (length s + j - 1)) \<and>
       redirectedTo (redirect_chain s inits ! (length s + j)) =
          (if j + 1 < length inits then Some (length s + j + 1) else None)"
    by (simp_all add: chain_inv_def redirect_chain_def)
  have "Request_finalRequest (redirect_chain s inits) (length s + k) = Some (length s + length inits - 1)"
    using len links assms by (intro finalRequest_follow) simp_all
  moreover have "redirectedTo (redirect_chain s inits ! (length s + length inits - 1)) = None"
    using links[of "length inits - 1"] assms by simp
  ultimately show ?thesis using links[OF assms] by simp
qed

theorem redirect_chain_links_witness:
  "(0::nat) < length [ex_init, ex_init, ex_init] \<and>
   Request_finalRequest (redirect_chain [] [ex_init, ex_init, ex_init]) 0 = Some 2 \<and>
   Request_finalRequest (redirect_chain [] [ex_init, ex_init, ex_init]) 1 = Some 2 \<and>
   redirectedFrom (redirect_chain [] [ex_init, ex_init, ex_init] ! 2) = Some 1 \<and>
   redirectedFrom (redirect_chain [] [ex_init, ex_init, ex_init] ! 1) = Some 0 \<and>
   redirectedFrom (redirect_chain [] [ex_init, ex_init, ex_init] ! 0) = None"
  using redirect_chain_links [of 0 "[ex_init, ex_init, ex_init]" "[]"]
    redirect_chain_links [of 1 "[ex_init, ex_init, ex_init]" "[]"]
    redirect_chain_links [of 2 "[ex_init, ex_init, ex_init]" "[]"]
  by (simp add: eval_nat_numeral)


subsection \<open>Base64\<close>

lemma of_char_b64_char:
  "n < 64 \<Longrightarrow> (of_char (b64_char n) :: nat) =
     (if n < 26 then 65 + n else if n < 52 then 71 + n else if n < 62 then n - 4
      else if n = 62 then 43 else 47)"
  by (simp add: b64_char_def)

lemma unbase64_b64_char: "n < 64 \<Longrightarrow> unbase64 (b64_char n) = Some n"
  by (auto simp: unbase64_def of_char_b64_char Let_def)

lemma b64_char_not_pad: "n < 64 \<Longrightarrow> b64_char n \<noteq> CHR ''=''"
proof
  assume "n < 64" "b64_char n = CHR ''=''"
  then have "(of_char (b64_char n) :: nat) = 61" by simp
  with \<open>n < 64\<close> show False by (auto simp: of_char_b64_char split: if_splits)
qed

lemma byte_less: "unat (a :: byte) < 256"
  using unsigned_less [of a, where 'a = nat] by simp

lemma sextets:
  fixes a b c :: byte
  shows "unat a div 4 < 64" "unat a mod 4 * 16 + unat b div 16 < 64"
    "unat b mod 16 * 4 + unat c div 64 < 64" "unat c mod 64 < 64"
    "unat b mod 16 * 4 < 64" "unat a mod 4 * 16 < 64"
  using byte_less[of a] byte_less[of b] byte_less[of c] by simp_all


lemma recombine1:
  fixes a b c :: nat
  assumes "b < 256"
  shows "a div 4 * 4 + (a mod 4 * 16 + b div 16) div 16 = a"
proof -
  have "b div 16 < 16" using assms by simp
  then have "(a mod 4 * 16 + b div 16) div 16 = a mod 4" by simp
  then show ?thesis by simp
qed

lemma recombine2:
  fixes b c :: nat
  assumes "b < 256" "c < 256"
  shows "(a mod 4 * 16 + b div 16) mod 16 * 16 + (b mod 16 * 4 + c div 64) div 4 = b"
proof -
  have "b div 16 < 16" "c div 64 < 4" using assms by simp_all
  then have "(a mod 4 * 16 + b div 16) mod 16 = b div 16" "(b mod 16 * 4 + c div 64) div 4 = b mod 16"
    by simp_all
  then show ?thesis by simp
qed

lemma recombine3:
  fixes b c :: nat
  assumes "c < 256"
  shows "(b mod 16 * 4 + c div 64) mod 4 * 64 + c mod 64 = c"
proof -
  have "c div 64 < 4" using assms by simp
  then have "(b mod 16 * 4 + c div 64) mod 4 = c div 64" by simp
  then show ?thesis by simp
qed


lemma decode_group:
  assumes "n1 < 64" "n2 < 64" "n3 < 64" "n4 < 64"
  shows "base64_decode (b64_char n1 # b64_char n2 # b64_char n3 # b64_char n4 # s) =
     [of_nat (n1 * 4 + n2 div 16), of_nat (n2 mod 16 * 16 + n3 div 4), of_nat (n3 mod 4 * 64 + n4)]
       @ base64_decode s"
  using assms by (simp add: base64_decode_def b64_char_not_pad unbase64_b64_char)

lemma decode_tail2:
  assumes "n1 < 64" "n2 < 64" "n3 < 64"
  shows "base64_decode [b64_char n1, b64_char n2, b64_char n3, CHR ''=''] =
     [of_nat (n1 * 4 + n2 div 16), of_nat (n2 mod 16 * 16 + n3 div 4)]"
  using assms by (simp add: base64_decode_def b64_char_not_pad unbase64_b64_char)

lemma decode_tail1:
  assumes "n1 < 64" "n2 < 64"
  shows "base64_decode [b64_char n1, b64_char n2, CHR ''='', CHR ''=''] = [of_nat (n1 * 4 + n2 div 16)]"
  using assms by (simp add: base64_decode_def b64_char_not_pad unbase64_b64_char)

lemma recombine1_pad:
  fixes a :: nat
  shows "a div 4 * 4 + a mod 4 * 16 div 16 = a"
  by simp

lemma recombine2_pad:
  fixes a b :: nat
  assumes "b < 256"
  shows "(a mod 4 * 16 + b div 16) mod 16 * 16 + b mod 16 * 4 div 4 = b"
  using recombine2 [OF assms, of 0 a] by simp

lemma word_of_unat: "of_nat (unat (a :: byte)) = a"
  by simp

lemma base64_roundtrip: "base64_decode (base64_encode bs) = bs"
proof (induction bs rule: base64_encode.induct)
  case (1 a b c rest)
  let ?n1 = "unat a div 4" and ?n2 = "unat a mod 4 * 16 + unat b div 16"
    and ?n3 = "unat b mod 16 * 4 + unat c div 64" and ?n4 = "unat c mod 64"
  have "base64_decode (base64_encode (a # b # c # rest)) =
      base64_decode (b64_char ?n1 # b64_char ?n2 # b64_char ?n3 # b64_char ?n4 # base64_encode rest)"
    by simp
  also have "\<dots> = [of_nat (?n1 * 4 + ?n2 div 16), of_nat (?n2 mod 16 * 16 + ?n3 div 4),
      of_nat (?n3 mod 4 * 64 + ?n4)] @ base64_decode (base64_encode rest)"
    by (rule decode_group) (rule sextets)+
  also have "\<dots> = [of_nat (unat a), of_nat (unat b), of_nat (unat c)] @ rest"
    by (simp only: recombine1 [OF byte_less] recombine2 [OF byte_less byte_less]
        recombine3 [OF byte_less] 1)
  finally show ?case by (simp only: word_of_unat append.simps)
next
  case (2 a b)
  let ?n1 = "unat a div 4" and ?n2 = "unat a mod 4 * 16 + unat b div 16"
    and ?n3 = "unat b mod 16 * 4"
  have "base64_decode (base64_encode [a, b]) =
      base64_decode [b64_char ?n1, b64_char ?n2, b64_char ?n3, CHR ''='']"
    by simp
  also have "\<dots> = [of_nat (?n1 * 4 + ?n2 div 16), of_nat (?n2 mod 16 * 16 + ?n3 div 4)]"
    by (rule decode_tail2) (rule sextets)+
  also have "\<dots> = [of_nat (unat a), of_nat (unat b)]"
    by (simp only: recombine1 [OF byte_less] recombine2_pad [OF byte_less])
  finally show ?case by (simp only: word_of_unat)
next
  case (3 a)
  let ?n1 = "unat a div 4" and ?n2 = "unat a mod 4 * 16"
  have "base64_decode (base64_encode [a]) = base64_decode [b64_char ?n1, b64_char ?n2, CHR ''='', CHR ''='']"
    by simp
  also have "\<dots> = [of_nat (?n1 * 4 + ?n2 div 16)]"
    by (rule decode_tail1) (rule sextets)+
  also have "\<dots> = [of_nat (unat a)]"
    by (simp only: recombine1_pad)
  finally show ?case by (simp only: word_of_unat)
next
  case 4
  show ?case by (simp add: base64_decode_def)
qed

subsection \<open>Route.fulfill\<close>

lemma keys_obj_set: "fst ` set (obj_set k v m) = insert k (fst ` set m)"
  using arg_cong [OF map_fst_obj_set, of set k v m] by auto

lemma content_length_lower: "toLowerCase ''content-length'' = ''content-length''"
  by code_simp

lemma String_of_nat_nonempty: "String_of_nat n \<noteq> []"
  by (subst String_of_nat.simps) simp

lemma quote_json_nonempty: "quote_json s \<noteq> []"
  by (simp add: quote_json_def)

lemma JSON_stringify_nonempty: "JSON_stringify j \<noteq> []"
  by (cases j) (simp_all add: String_of_int_def String_of_nat_nonempty quote_json_nonempty)

lemma lowered_keys:
  "fst ` set (foldl (\<lambda>hs header. obj_set (toLowerCase (fst header)) (snd header) hs) acc h) =
     fst ` set acc \<union> toLowerCase ` fst ` set h"
proof (induction h arbitrary: acc)
  case Nil
  show ?case by simp
next
  case (Cons x h)
  show ?case by (simp add: Cons keys_obj_set)
qed

lemma fulfill_headers_keys_lower:
  "k \<in> fst ` set (fulfill_headers pf options headersOption len) \<Longrightarrow> toLowerCase k = k"
  by (auto simp: fulfill_headers_def lowered_def Let_def keys_obj_set lowered_keys toLowerCase_idem
      content_type_lower content_length_lower split: option.splits if_splits)


lemma fulfill_json_body_Some:
  "opt_json options = Some j \<Longrightarrow>
     fulfill_json_body options =
       (if opt_body options = None then Inr (Some (BodyString (JSON_stringify j)))
        else Inl (Error ''Can specify either body or json parameters''))"
  by (simp add: fulfill_json_body_def)

lemma fulfill_response_body:
  "fulfill_response options (Some b) =
     Inr (case opt_status options of
            None \<Rightarrow> map_option resp_status (opt_response options) | Some s \<Rightarrow> Some s,
          case opt_headers options of
            None \<Rightarrow> map_option resp_headers (opt_response options) | Some h \<Rightarrow> Some h,
          Some b, None)"
  by (simp add: fulfill_response_def Let_def split: option.splits)

lemma fulfill_encode_no_path:
  "\<not> truthy_str (opt_path options) \<Longrightarrow>
     fulfill_encode pf options (Some (BodyString s)) = Inr (Some s, False, length s)"
  by (simp add: fulfill_encode_def fulfill_plain_body_def truthy_str_def split: option.splits)

lemma fulfill_content_type_json:
  "opt_json options = Some j \<Longrightarrow>
     fulfill_content_type pf options =
       (if truthy_str (opt_contentType options) then opt_contentType options
        else if truthy_json j then Some ''application/json''
        else (case opt_path options of
                Some p \<Rightarrow>
                  if p \<noteq> [] then Some (or_else (getMimeTypeForPath pf p) ''application/octet-stream'')
                  else None
              | None \<Rightarrow> None))"
  by (simp add: fulfill_content_type_def)

lemma fulfill_headers_content_type:
  "fulfill_content_type pf options = Some ct \<Longrightarrow>
     map_of (fulfill_headers pf options headersOption len) ''content-type'' = Some ct"
  by (simp add: fulfill_headers_def lowered_def Let_def map_of_obj_set)

lemma fulfill_headers_content_length:
  assumes "len \<noteq> 0"
  shows "map_of (fulfill_headers pf options headersOption len) ''content-length'' =
     (if ''content-length'' \<in> toLowerCase ` fst ` set (case headersOption of Some h \<Rightarrow> h | None \<Rightarrow> [])
      then map_of (lowered (case headersOption of Some h \<Rightarrow> h | None \<Rightarrow> [])) ''content-length''
      else Some (String_of_nat len))"
  using assms
  by (auto simp: fulfill_headers_def Let_def map_of_obj_set keys_obj_set lowered_keys lowered_def
      split: option.splits)


text \<open>
  Claim C3, as amended. For a \<^verbatim>\<open>fulfill\<close> call with a \<^verbatim>\<open>json\<close> option and no non-empty
  \<^verbatim>\<open>path\<close>: the call fails with ``Can specify either body or json parameters'' when
  \<^verbatim>\<open>body\<close> is given too; otherwise the command carries the JSON serialization as its
  body, not base64-encoded, and no fetch uid. The status is the \<^verbatim>\<open>status\<close> option, else
  the status of a passed response, and 200 when that is unset or 0. Every header name
  sent is lower-case. The content type sent is the \<^verbatim>\<open>contentType\<close> option when that is
  non-empty, else \<^verbatim>\<open>application/json\<close> when the json value is truthy. The content
  length sent is the byte length of the serialization, unless the given headers (the
  \<^verbatim>\<open>headers\<close> option, else the headers of a passed response) have a
  \<^verbatim>\<open>content-length\<close> up to case, which is then kept.
\<close>

theorem Route_innerFulfill_json:
  assumes "opt_json options = Some j" and "\<not> truthy_str (opt_path options)"
  shows
    "(let statusOption = (case opt_status options of
                            None \<Rightarrow> map_option resp_status (opt_response options) | Some s \<Rightarrow> Some s);
          headersOption = (case opt_headers options of
                             None \<Rightarrow> map_option resp_headers (opt_response options) | Some h \<Rightarrow> Some h);
          given = (case headersOption of Some h \<Rightarrow> h | None \<Rightarrow> []);
          body = JSON_stringify j;
          sent = fulfill_headers pf options headersOption (length body)
      in Route_innerFulfill pf options =
           (if opt_body options \<noteq> None then Inl (Error ''Can specify either body or json parameters'')
            else Inr \<lparr> fp_status = (case statusOption of
                                       Some s \<Rightarrow> if s \<noteq> 0 then s else 200 | None \<Rightarrow> 200),
                       fp_headers = sent, fp_body = Some body, fp_isBase64 = False,
                       fp_fetchResponseUid = None \<rparr>) \<and>
         (\<forall>name \<in> fst ` set sent. toLowerCase name = name) \<and>
         (truthy_str (opt_contentType options) \<longrightarrow>
            map_of sent ''content-type'' = opt_contentType options) \<and>
         (\<not> truthy_str (opt_contentType options) \<and> truthy_json j \<longrightarrow>
            map_of sent ''content-type'' = Some ''application/json'') \<and>
         map_of sent ''content-length'' =
           (if ''content-length'' \<in> toLowerCase ` fst ` set given
            then map_of (lowered given) ''content-length''
            else Some (String_of_nat (length body))))"
proof -
  have enc: "fulfill_encode pf options (Some (BodyString (JSON_stringify j))) =
      Inr (Some (JSON_stringify j), False, length (JSON_stringify j))"
    using assms(2) by (rule fulfill_encode_no_path)
  have len: "length (JSON_stringify j) \<noteq> 0"
    by (simp add: JSON_stringify_nonempty)
  show ?thesis
    unfolding Let_def
  proof (intro conjI ballI impI)
    show "Route_innerFulfill pf options =
       (if opt_body options \<noteq> None then Inl (Error ''Can specify either body or json parameters'')
        else Inr \<lparr> fp_status = (case (case opt_status options of
                            None \<Rightarrow> map_option resp_status (opt_response options) | Some s \<Rightarrow> Some s) of
                                       Some s \<Rightarrow> if s \<noteq> 0 then s else 200 | None \<Rightarrow> 200),
                   fp_headers = fulfill_headers pf options (case opt_headers options of
                             None \<Rightarrow> map_option resp_headers (opt_response options) | Some h \<Rightarrow> Some h)
                        (length (JSON_stringify j)),
                   fp_body = Some (JSON_stringify j), fp_isBase64 = False,
                   fp_fetchResponseUid = None \<rparr>)"
      by (simp add: Route_innerFulfill_def fulfill_json_body_Some [OF assms(1)] fulfill_response_body
          enc headersObjectToArray_def)
  next
    fix name
    assume "name \<in> fst ` set (fulfill_headers pf options (case opt_headers options of
        None \<Rightarrow> map_option resp_headers (opt_response options) | Some h \<Rightarrow> Some h)
        (length (JSON_stringify j)))"
    then show "toLowerCase name = name" by (rule fulfill_headers_keys_lower)
  next
    assume "truthy_str (opt_contentType options)"
    then show "map_of (fulfill_headers pf options (case opt_headers options of
        None \<Rightarrow> map_option resp_headers (opt_response options) | Some h \<Rightarrow> Some h)
        (length (JSON_stringify j))) ''content-type'' = opt_contentType options"
      by (cases "opt_contentType options")
        (simp_all add: truthy_str_def fulfill_headers_content_type fulfill_content_type_def)
  next
    assume "\<not> truthy_str (opt_contentType options) \<and> truthy_json j"
    then show "map_of (fulfill_headers pf options (case opt_headers options of
        None \<Rightarrow> map_option resp_headers (opt_response options) | Some h \<Rightarrow> Some h)
        (length (JSON_stringify j))) ''content-type'' = Some ''application/json''"
      by (simp add: fulfill_headers_content_type fulfill_content_type_json [OF assms(1)])
  next
    show "map_of (fulfill_headers pf options (case opt_headers options of
        None \<Rightarrow> map_option resp_headers (opt_response options) | Some h \<Rightarrow> Some h)
        (length (JSON_stringify j))) ''content-length'' =
      (if ''content-length'' \<in> toLowerCase ` fst ` set (case (case opt_headers options of
        None \<Rightarrow> map_option resp_headers (opt_response options) | Some h \<Rightarrow> Some h) of Some h \<Rightarrow> h | None \<Rightarrow> [])
       then map_of (lowered (case (case opt_headers options of
        None \<Rightarrow> map_option resp_headers (opt_response options) | Some h \<Rightarrow> Some h) of Some h \<Rightarrow> h | None \<Rightarrow> [])) ''content-length''
       else Some (String_of_nat (length (JSON_stringify j))))"
      by (rule fulfill_headers_content_length [OF len])
  qed
qed

theorem Route_innerFulfill_json_witness:
  "opt_json (ex_fulfill\<lparr>opt_json := Some (JObj [(''a'', JNum 1)])\<rparr>) = Some (JObj [(''a'', JNum 1)]) \<and>
   \<not> truthy_str (opt_path (ex_fulfill\<lparr>opt_json := Some (JObj [(''a'', JNum 1)])\<rparr>)) \<and>
   \<not> truthy_str (opt_contentType (ex_fulfill\<lparr>opt_json := Some (JObj [(''a'', JNum 1)])\<rparr>)) \<and>
   truthy_json (JObj [(''a'', JNum 1)]) \<and>
   Route_innerFulfill ex_platform (ex_fulfill\<lparr>opt_json := Some (JObj [(''a'', JNum 1)])\<rparr>) =
     Inr \<lparr> fp_status = 200,
           fp_headers = [(''content-type'', ''application/json''), (''content-length'', ''7'')],
           fp_body = Some [CHR ''{'', CHR 0x22, CHR ''a'', CHR 0x22, CHR '':'', CHR ''1'', CHR ''}''],
           fp_isBase64 = False, fp_fetchResponseUid = None \<rparr> \<and>
   Route_innerFulfill ex_platform
       (ex_fulfill\<lparr>opt_json := Some (JObj [(''a'', JNum 1)]), opt_body := Some (BodyString ''x'')\<rparr>) =
     Inl (Error ''Can specify either body or json parameters'') \<and>
   truthy_str (opt_contentType ex_fulfill_typed) \<and>
   Route_innerFulfill ex_platform ex_fulfill_typed =
     Inr \<lparr> fp_status = 201,
           fp_headers = [(''content-length'', ''99''), (''x-a'', ''b''), (''content-type'', ''text/plain'')],
           fp_body = Some ''null'', fp_isBase64 = False, fp_fetchResponseUid = None \<rparr>"
proof -
  let ?j = "JObj [(''a'', JNum 1)]"
  let ?o = "ex_fulfill\<lparr>opt_json := Some ?j\<rparr>"
  let ?o' = "ex_fulfill\<lparr>opt_json := Some ?j, opt_body := Some (BodyString ''x'')\<rparr>"
  have h: "opt_json ?o = Some ?j" "\<not> truthy_str (opt_path ?o)"
    "opt_json ?o' = Some ?j" "\<not> truthy_str (opt_path ?o')"
    "opt_json ex_fulfill_typed = Some JNull" "\<not> truthy_str (opt_path ex_fulfill_typed)"
    by (simp_all add: ex_fulfill_def ex_fulfill_typed_def truthy_str_def)
  have g: "\<not> truthy_str (opt_contentType ?o)" "truthy_json ?j" "truthy_str (opt_contentType ex_fulfill_typed)"
    by (simp_all add: ex_fulfill_def ex_fulfill_typed_def truthy_str_def)
  note a = Route_innerFulfill_json [OF h(1) h(2), of ex_platform, unfolded Let_def, THEN conjunct1]
  note b = Route_innerFulfill_json [OF h(3) h(4), of ex_platform, unfolded Let_def, THEN conjunct1]
  note t = Route_innerFulfill_json [OF h(5) h(6), of ex_platform, unfolded Let_def, THEN conjunct1]
  have c: "Route_innerFulfill ex_platform ?o =
     Inr \<lparr> fp_status = 200,
           fp_headers = [(''content-type'', ''application/json''), (''content-length'', ''7'')],
           fp_body = Some [CHR ''{'', CHR 0x22, CHR ''a'', CHR 0x22, CHR '':'', CHR ''1'', CHR ''}''],
           fp_isBase64 = False, fp_fetchResponseUid = None \<rparr>"
    by (subst a) code_simp
  have d: "Route_innerFulfill ex_platform ?o' = Inl (Error ''Can specify either body or json parameters'')"
    by (subst b) code_simp
  have e: "Route_innerFulfill ex_platform ex_fulfill_typed =
     Inr \<lparr> fp_status = 201,
           fp_headers = [(''content-length'', ''99''), (''x-a'', ''b''), (''content-type'', ''text/plain'')],
           fp_body = Some ''null'', fp_isBase64 = False, fp_fetchResponseUid = None \<rparr>"
    by (subst t) code_simp
  from h(1) h(2) g(1) g(2) c d g(3) e show ?thesis by (intro conjI)
qed

text \<open>
  Claim C3, as stated, fails in three ways: a falsy json value gets no content type;
  with a passed response the unset status is the response's, not 200; a non-empty
  \<^verbatim>\<open>path\<close> replaces the serialized body by the file.
\<close>

theorem Route_innerFulfill_json_counterexample:
  "Route_innerFulfill ex_platform (ex_fulfill\<lparr>opt_json := Some (JNum 0)\<rparr>) =
     Inr \<lparr> fp_status = 200, fp_headers = [(''content-length'', ''1'')], fp_body = Some ''0'',
           fp_isBase64 = False, fp_fetchResponseUid = None \<rparr> \<and>
   Route_innerFulfill ex_platform
       (ex_fulfill\<lparr>opt_json := Some (JBool True), opt_response := Some ex_response\<rparr>) =
     Inr \<lparr> fp_status = 404,
           fp_headers = [(''x-origin'', ''upstream''), (''content-type'', ''application/json''),
                         (''content-length'', ''4'')],
           fp_body = Some ''true'', fp_isBase64 = False, fp_fetchResponseUid = None \<rparr> \<and>
   Route_innerFulfill ex_platform
       (ex_fulfill\<lparr>opt_json := Some (JBool True), opt_path := Some ''index.html''\<rparr>) =
     Inr \<lparr> fp_status = 200,
           fp_headers = [(''content-type'', ''application/json''), (''content-length'', ''3'')],
           fp_body = Some ''PHA+'', fp_isBase64 = True, fp_fetchResponseUid = None \<rparr>"
  by code_simp


subsection \<open>Route resolution\<close>

lemma Route_begin_handled:
  "handlingPromise rt = None \<Longrightarrow> Route_begin pf c rt = (Inl (Error ''Route is already handled!''), rt)"
  by (cases c) (simp_all add: Route_checkNotHandled_def)

lemma Route_call_handled:
  "handlingPromise rt = None \<Longrightarrow> Route_call pf c rt = (Inl (Error ''Route is already handled!''), rt)"
  by (simp add: Route_call_def Route_begin_handled)

lemma Route_calls_handled:
  "handlingPromise rt = None \<Longrightarrow>
     Route_calls pf cs rt = (replicate (length cs) (Inl (Error ''Route is already handled!'')), rt)"
  by (induction cs) (simp_all add: Route_call_handled)

lemma Route_settle_Done:
  "Route_settle outcome rt = (Inr ph, rt1) \<Longrightarrow> ph = Done \<and> outcome = None \<and> handlingPromise rt1 = None"
  by (cases outcome) (auto simp: Route_reportHandled_def split: option.splits)

lemma Route_begin_Inr:
  assumes "Route_begin pf c rt = (Inr ph, rt1)"
  shows "(ph = Done \<and> handlingPromise rt1 = None) \<or>
         (ph = Awaiting \<and> handlingPromise rt1 = handlingPromise rt)"
proof (cases c)
  case (Fallback ov)
  with assms show ?thesis
    by (auto simp: Route_checkNotHandled_def Route_reportHandled_def Let_def split: if_splits option.splits)
next
  case (Abort x)
  with assms show ?thesis
    by (auto simp: Route_checkNotHandled_def channel_send_def Route_innerContinue_def Let_def
        split: if_splits sum.splits)
next
  case (RedirectNavigationRequest x)
  with assms show ?thesis
    by (auto simp: Route_checkNotHandled_def channel_send_def Route_innerContinue_def Let_def
        split: if_splits sum.splits)
next
  case (Fulfill x)
  with assms show ?thesis
    by (auto simp: Route_checkNotHandled_def channel_send_def Route_innerContinue_def Let_def
        split: if_splits sum.splits)
next
  case (Continue x)
  with assms show ?thesis
    by (auto simp: Route_checkNotHandled_def channel_send_def Route_innerContinue_def Let_def
        split: if_splits sum.splits)
qed

lemma Route_call_success:
  assumes "Route_call pf c rt = (Inr ph, rt1)"
  shows "ph = Done \<and> handlingPromise rt1 = None"
proof (cases "Route_begin pf (fst c) rt")
  case (Pair r rt0)
  show ?thesis
  proof (cases r)
    case (Inl e)
    with Pair assms show ?thesis by (simp add: Route_call_def)
  next
    case (Inr ph0)
    show ?thesis
    proof (cases ph0)
      case Awaiting
      with Pair Inr assms have "Route_settle (snd c) rt0 = (Inr ph, rt1)"
        by (simp add: Route_call_def)
      then show ?thesis by (auto dest: Route_settle_Done)
    next
      case Done
      with Pair Inr assms have "ph = Done" "rt1 = rt0" by (simp_all add: Route_call_def)
      with Route_begin_Inr [of pf "fst c" rt Done rt0] Pair Inr Done show ?thesis by simp
    qed
  qed
qed

lemma Route_calls_append:
  "Route_calls pf (xs @ ys) rt =
     (let (rs, rt1) = Route_calls pf xs rt; (rs', rt2) = Route_calls pf ys rt1 in (rs @ rs', rt2))"
  by (induction xs arbitrary: rt) (simp_all add: split_beta Let_def)

lemma Route_calls_length: "length (fst (Route_calls pf cs rt)) = length cs"
  by (induction cs arbitrary: rt) (simp_all add: split_beta Let_def)

lemma Route_calls_last_success:
  assumes "Route_calls pf cs rt = (rs, rt1)" and "rs \<noteq> []" and "last rs = Inr ph"
  shows "handlingPromise rt1 = None"
proof -
  from assms(1,2) Route_calls_length [of pf cs rt] have "cs \<noteq> []" by auto
  then obtain cs0 c where cs: "cs = cs0 @ [c]" by (metis rev_exhaust)
  obtain rs0 rt0 where a: "Route_calls pf cs0 rt = (rs0, rt0)" by (cases "Route_calls pf cs0 rt")
  obtain r rt' where b: "Route_call pf c rt0 = (r, rt')" by (cases "Route_call pf c rt0")
  from assms(1) cs a b have "rs = rs0 @ [r]" "rt1 = rt'"
    by (simp_all add: Route_calls_append)
  with assms(3) b have "Route_call pf c rt0 = (Inr ph, rt1)" by simp
  then show ?thesis by (auto dest: Route_call_success)
qed

lemma Route_call_handling:
  assumes "handlingPromise rt \<noteq> None" and "\<forall>e. Route_callback pf c rt \<noteq> Inl e"
  shows "fst (Route_call pf (c, None) rt) = Inr Done"
proof (cases c)
  case (Fallback ov)
  with assms(1) show ?thesis
    by (auto simp: Route_call_def Route_checkNotHandled_def Route_reportHandled_def Let_def)
next
  case (Abort x)
  with assms(1) show ?thesis
    by (auto simp: Route_call_def Route_checkNotHandled_def Route_reportHandled_def channel_send_def)
next
  case (RedirectNavigationRequest x)
  with assms(1) show ?thesis
    by (auto simp: Route_call_def Route_checkNotHandled_def Route_reportHandled_def channel_send_def)
next
  case (Fulfill x)
  with assms show ?thesis
    by (auto simp: Route_call_def Route_checkNotHandled_def Route_reportHandled_def channel_send_def
        split: sum.splits)
next
  case (Continue x)
  with assms(1) show ?thesis
    by (auto simp: Route_call_def Route_checkNotHandled_def Route_reportHandled_def channel_send_def
        Route_innerContinue_def Let_def)
qed

text \<open>
  Claim C1, as amended. In every sequence of resolving calls on a route that are awaited
  one after the other, a call that succeeds leaves the route handled, and every later
  call fails with ``Route is already handled!'' and changes nothing: the route and its
  channel stay as the successful call left them. So at most one call succeeds. A call on
  a route that is being handled succeeds when its callback does not throw and its
  command settles without rejecting. A call that has sent its command and awaits the
  reply has not changed \<^verbatim>\<open>_handlingPromise\<close>: the route is flipped to handled when
  the command has settled (for \<^verbatim>\<open>fallback\<close>, at once).
\<close>

theorem Route_sequential_calls:
  assumes "Route_calls pf cs rt = (rs, rt1)" and "i < length cs" and "rs ! i = Inr ph"
  shows "ph = Done \<and>
         (\<forall>j. i < j \<and> j < length cs \<longrightarrow> rs ! j = Inl (Error ''Route is already handled!'')) \<and>
         snd (Route_calls pf (take (Suc i) cs) rt) = rt1 \<and>
         handlingPromise rt1 = None \<and>
         (handlingPromise rt \<noteq> None \<and> (\<forall>e. Route_callback pf c rt \<noteq> Inl e) \<longrightarrow>
            fst (Route_call pf (c, None) rt) = Inr Done) \<and>
         (Route_begin pf c rt = (Inr Awaiting, rt0) \<longrightarrow> handlingPromise rt0 = handlingPromise rt)"
proof -
  obtain ra rta where a: "Route_calls pf (take (Suc i) cs) rt = (ra, rta)"
    by (cases "Route_calls pf (take (Suc i) cs) rt")
  obtain rb rtb where b: "Route_calls pf (drop (Suc i) cs) rta = (rb, rtb)"
    by (cases "Route_calls pf (drop (Suc i) cs) rta")
  have "Route_calls pf cs rt = (ra @ rb, rtb)"
    using Route_calls_append [of pf "take (Suc i) cs" "drop (Suc i) cs" rt] a b by simp
  with assms(1) have rs: "rs = ra @ rb" and rt1: "rt1 = rtb" by simp_all
  have la: "length ra = Suc i"
    using Route_calls_length [of pf "take (Suc i) cs" rt] a assms(2) by simp
  then have "ra \<noteq> []" by auto
  with la have "last ra = rs ! i"
    by (simp add: rs nth_append last_conv_nth)
  with assms(3) have last: "last ra = Inr ph" by simp
  have handled: "handlingPromise rta = None"
    using a \<open>ra \<noteq> []\<close> last by (rule Route_calls_last_success)
  with b have rb: "rb = replicate (length (drop (Suc i) cs)) (Inl (Error ''Route is already handled!''))"
    and same: "rtb = rta"
    by (simp_all add: Route_calls_handled)
  obtain cs0 c0 where snoc: "take (Suc i) cs = cs0 @ [c0]"
    using assms(2) by (metis take_Suc_conv_app_nth)
  obtain r0 rtp where c0: "Route_calls pf cs0 rt = (r0, rtp)" by (cases "Route_calls pf cs0 rt")
  obtain r rt' where r: "Route_call pf c0 rtp = (r, rt')" by (cases "Route_call pf c0 rtp")
  from a snoc c0 r have "ra = r0 @ [r]" by (simp add: Route_calls_append)
  with last r have "Route_call pf c0 rtp = (Inr ph, rt')" by simp
  then have phd: "ph = Done" by (auto dest: Route_call_success)
  have later: "\<forall>j. i < j \<and> j < length cs \<longrightarrow> rs ! j = Inl (Error ''Route is already handled!'')"
    using la by (auto simp: rs rb nth_append)
  have awaiting: "Route_begin pf c rt = (Inr Awaiting, rt0) \<longrightarrow> handlingPromise rt0 = handlingPromise rt"
    using Route_begin_Inr [of pf c rt Awaiting rt0] by auto
  have state: "snd (Route_calls pf (take (Suc i) cs) rt) = rt1"
    using a same rt1 by simp
  have flipped: "handlingPromise rt1 = None"
    using handled same rt1 by simp
  have first: "handlingPromise rt \<noteq> None \<and> (\<forall>e. Route_callback pf c rt \<noteq> Inl e) \<longrightarrow>
      fst (Route_call pf (c, None) rt) = Inr Done"
    using Route_call_handling [of rt pf c] by blast
  from phd later state flipped first awaiting show ?thesis by (intro conjI)
qed

text \<open>
  Claim C2, as amended. When a resolving call on a route that is being handled rejects,
  the route is still being handled: \<^verbatim>\<open>_handlingPromise\<close> is the same pending promise,
  \<^verbatim>\<open>_didThrow\<close> is set, the not-handled check passes again, and a following
  \<^verbatim>\<open>abort\<close> sends its command and succeeds.
\<close>

theorem Route_rejected_call:
  assumes "handlingPromise rt = Some p" and "Route_call pf c rt = (Inl e, rt1)"
  shows "handlingPromise rt1 = Some p \<and> promises rt1 = promises rt \<and> didThrow rt1 \<and>
         Route_checkNotHandled rt1 = Inr () \<and>
         Route_call pf (Abort errorCode, None) rt1 =
           (Inr Done, rt1\<lparr>handlingPromise := None,
                          promises := ManualPromise_resolve p True (promises rt),
                          channel := channel rt1 @ [ChannelAbort errorCode]\<rparr>)"
proof -
  have main: "handlingPromise rt1 = Some p \<and> promises rt1 = promises rt \<and> didThrow rt1"
  proof (cases "fst c")
    case (Fallback ov)
    with assms show ?thesis
      by (auto simp: Route_call_def Route_checkNotHandled_def Route_reportHandled_def Let_def)
  next
    case (Abort x)
    with assms show ?thesis
      by (cases "snd c")
        (auto simp: Route_call_def Route_checkNotHandled_def Route_reportHandled_def channel_send_def)
  next
    case (RedirectNavigationRequest x)
    with assms show ?thesis
      by (cases "snd c")
        (auto simp: Route_call_def Route_checkNotHandled_def Route_reportHandled_def channel_send_def)
  next
    case (Fulfill x)
    with assms show ?thesis
      by (cases "snd c"; cases "Route_innerFulfill pf x")
        (auto simp: Route_call_def Route_checkNotHandled_def Route_reportHandled_def channel_send_def)
  next
    case (Continue x)
    with assms show ?thesis
      by (cases "snd c")
        (auto simp: Route_call_def Route_checkNotHandled_def Route_reportHandled_def channel_send_def
          Route_innerContinue_def Let_def)
  qed
  then show ?thesis
    by (simp add: Route_call_def Route_checkNotHandled_def Route_reportHandled_def channel_send_def)
qed

theorem Route_sequential_calls_witness:
  "(0::nat) < length ex_calls \<and>
   fst (Route_calls ex_platform ex_calls ex_route) ! 0 = Inr Done \<and>
   fst (Route_calls ex_platform ex_calls ex_route) ! 1 = Inl (Error ''Route is already handled!'') \<and>
   fst (Route_calls ex_platform ex_calls ex_route) ! 2 = Inl (Error ''Route is already handled!'') \<and>
   handlingPromise (snd (Route_calls ex_platform ex_calls ex_route)) = None \<and>
   channel (snd (Route_calls ex_platform ex_calls ex_route)) = [ChannelAbort None] \<and>
   handlingPromise ex_route = Some 0 \<and>
   Route_innerFulfill ex_platform ex_fulfill =
     Inr \<lparr> fp_status = 200, fp_headers = [], fp_body = None, fp_isBase64 = False,
           fp_fetchResponseUid = None \<rparr> \<and>
   fst (Route_call ex_platform (Fulfill ex_fulfill, None) ex_route) = Inr Done \<and>
   fst (Route_begin ex_platform (Fulfill ex_fulfill) ex_route) = Inr Awaiting \<and>
   handlingPromise (snd (Route_begin ex_platform (Fulfill ex_fulfill) ex_route)) = Some 0"
proof -
  have h1: "Route_calls ex_platform ex_calls ex_route =
      (fst (Route_calls ex_platform ex_calls ex_route), snd (Route_calls ex_platform ex_calls ex_route))"
    by simp
  have h2: "(0::nat) < length ex_calls" by (simp add: ex_calls_def)
  have h3: "fst (Route_calls ex_platform ex_calls ex_route) ! 0 = Inr Done" by code_simp
  have h4: "handlingPromise ex_route = Some 0" by code_simp
  have h5: "Route_innerFulfill ex_platform ex_fulfill =
      Inr \<lparr> fp_status = 200, fp_headers = [], fp_body = None, fp_isBase64 = False,
            fp_fetchResponseUid = None \<rparr>"
    by code_simp
  then have h6: "\<forall>e. Route_callback ex_platform (Fulfill ex_fulfill) ex_route \<noteq> Inl e"
    by simp
  have h7: "fst (Route_begin ex_platform (Fulfill ex_fulfill) ex_route) = Inr Awaiting"
    by (simp add: Route_checkNotHandled_def h4 h5)
  then have h8: "Route_begin ex_platform (Fulfill ex_fulfill) ex_route =
      (Inr Awaiting, snd (Route_begin ex_platform (Fulfill ex_fulfill) ex_route))"
    by (simp add: prod_eq_iff)
  note t = Route_sequential_calls [OF h1 h2 h3, of "Fulfill ex_fulfill"
      "snd (Route_begin ex_platform (Fulfill ex_fulfill) ex_route)"]
  have l: "length ex_calls = 3" by (simp add: ex_calls_def)
  from t l have a: "fst (Route_calls ex_platform ex_calls ex_route) ! 1 = Inl (Error ''Route is already handled!'')"
    "fst (Route_calls ex_platform ex_calls ex_route) ! 2 = Inl (Error ''Route is already handled!'')"
    "handlingPromise (snd (Route_calls ex_platform ex_calls ex_route)) = None"
    by simp_all
  from t h4 h6 have b: "fst (Route_call ex_platform (Fulfill ex_fulfill, None) ex_route) = Inr Done"
    by simp
  have c: "channel (snd (Route_calls ex_platform ex_calls ex_route)) = [ChannelAbort None]"
    by code_simp
  from t h8 h4 have d: "handlingPromise (snd (Route_begin ex_platform (Fulfill ex_fulfill) ex_route)) = Some 0"
    by simp
  from h2 h3 a c h4 h5 b h7 d show ?thesis by (intro conjI)
qed

text \<open>
  Claim C1, as stated, fails. Awaited one after the other: a \<^verbatim>\<open>fulfill\<close> with both
  \<^verbatim>\<open>body\<close> and \<^verbatim>\<open>json\<close> rejects, and the \<^verbatim>\<open>abort\<close> after it succeeds. Overlapping:
  \<^verbatim>\<open>abort\<close> and \<^verbatim>\<open>continue\<close> started before either command settles both pass the
  check and both send their command; the second to settle fails with a
  \<^verbatim>\<open>TypeError\<close>, not with ``Route is already handled!''.
\<close>

theorem Route_sequential_calls_counterexample:
  "fst (Route_calls ex_platform
          [(Fulfill (ex_fulfill\<lparr>opt_body := Some (BodyString ''x''), opt_json := Some (JNum 1)\<rparr>), None),
           (Abort None, None)] ex_route) =
     [Inl (Error ''Can specify either body or json parameters''), Inr Done] \<and>
   fst (Route_run ex_platform
          [Begin (Abort None), Begin (Continue ex_overrides), Settle None, Settle None] ex_route) =
     [Inr Awaiting, Inr Awaiting, Inr Done, Inl (TypeError ''Cannot read properties of null'')] \<and>
   length (channel (snd (Route_run ex_platform
          [Begin (Abort None), Begin (Continue ex_overrides), Settle None, Settle None] ex_route))) = 2"
  by code_simp

theorem Route_rejected_call_witness:
  "handlingPromise ex_route = Some 0 \<and>
   Route_call ex_platform (Abort None, Some (Error ''Unsupported error code'')) ex_route =
     (Inl (Error ''Unsupported error code''),
      snd (Route_call ex_platform (Abort None, Some (Error ''Unsupported error code'')) ex_route)) \<and>
   handlingPromise (snd (Route_call ex_platform (Abort None, Some (Error ''Unsupported error code'')) ex_route))
     = Some 0 \<and>
   didThrow (snd (Route_call ex_platform (Abort None, Some (Error ''Unsupported error code'')) ex_route)) \<and>
   fst (Route_call ex_platform (Abort None, None)
          (snd (Route_call ex_platform (Abort None, Some (Error ''Unsupported error code'')) ex_route)))
     = Inr Done"
proof -
  let ?c = "(Abort None, Some (Error ''Unsupported error code''))"
  have h1: "handlingPromise ex_route = Some 0" by code_simp
  have "fst (Route_call ex_platform ?c ex_route) = Inl (Error ''Unsupported error code'')"
    by code_simp
  then have h2: "Route_call ex_platform ?c ex_route =
      (Inl (Error ''Unsupported error code''), snd (Route_call ex_platform ?c ex_route))"
    by (simp add: prod_eq_iff)
  note t = Route_rejected_call [OF h1 h2, of None]
  from t have a: "handlingPromise (snd (Route_call ex_platform ?c ex_route)) = Some 0"
    "didThrow (snd (Route_call ex_platform ?c ex_route))"
    "fst (Route_call ex_platform (Abort None, None) (snd (Route_call ex_platform ?c ex_route))) = Inr Done"
    by simp_all
  from h1 h2 a show ?thesis by (intro conjI)
qed

text \<open>
  Claim C2, as stated, fails: an \<^verbatim>\<open>abort\<close> whose command is rejected leaves
  \<^verbatim>\<open>_handlingPromise\<close> set, and the \<^verbatim>\<open>abort\<close> after it is not refused: a second
  command goes out.
\<close>

theorem Route_rejected_call_counterexample:
  "fst (Route_calls ex_platform
          [(Abort None, Some (Error ''Unsupported error code'')), (Abort (Some ''failed''), None)] ex_route) =
     [Inl (Error ''Unsupported error code''), Inr Done] \<and>
   handlingPromise (snd (Route_call ex_platform (Abort None, Some (Error ''Unsupported error code'')) ex_route))
     = Some 0 \<and>
   channel (snd (Route_calls ex_platform
          [(Abort None, Some (Error ''Unsupported error code'')), (Abort (Some ''failed''), None)] ex_route)) =
     [ChannelAbort None, ChannelAbort (Some ''failed'')]"
  by code_simp


subsection \<open>RouteHandler\<close>

lemma willExpire_started:
  "RouteHandler_willExpire (fst (RouteHandler_handle_start route h)) \<longleftrightarrow>
     int (handledCount h) + 2 \<ge> handler_times h"
  by (auto simp: RouteHandler_willExpire_def RouteHandler_handle_start_def Let_def)

lemma handle_start_fields:
  "handledCount (fst (RouteHandler_handle_start route h)) = Suc (handledCount h)"
  "handler_times (fst (RouteHandler_handle_start route h)) = handler_times h"
  by (simp_all add: RouteHandler_handle_start_def Let_def)

lemma dispatch_step_2:
  assumes "handler_times (snd st) = 2" and "handledCount (snd st) = min n 2" and "fst st \<longleftrightarrow> n < 2"
  shows "handledCount (snd (dispatch r st)) = min (Suc n) 2 \<and>
         handler_times (snd (dispatch r st)) = 2 \<and>
         (fst (dispatch r st) \<longleftrightarrow> Suc n < 2)"
  using assms
  by (cases "n < 2") (auto simp: dispatch_def handle_start_fields RouteHandler_willExpire_def)

lemma dispatch_budget_2:
  "handledCount (snd (foldl (\<lambda>s r. dispatch r s) (True, new_RouteHandler (Some 2)) routes)) =
     min (length routes) 2 \<and>
   handler_times (snd (foldl (\<lambda>s r. dispatch r s) (True, new_RouteHandler (Some 2)) routes)) = 2 \<and>
   (fst (foldl (\<lambda>s r. dispatch r s) (True, new_RouteHandler (Some 2)) routes) \<longleftrightarrow> length routes < 2)"
proof (induction routes rule: rev_induct)
  case Nil
  show ?case by (simp add: new_RouteHandler_def)
next
  case (snoc r routes)
  let ?st = "foldl (\<lambda>s r. dispatch r s) (True, new_RouteHandler (Some 2)) routes"
  from snoc have "handledCount (snd (dispatch r ?st)) = min (Suc (length routes)) 2 \<and>
         handler_times (snd (dispatch r ?st)) = 2 \<and>
         (fst (dispatch r ?st) \<longleftrightarrow> Suc (length routes) < 2)"
    by (intro dispatch_step_2) simp_all
  then show ?case by simp
qed


text \<open>
  Claim C4, as amended. For a handler with budget 2, \<^verbatim>\<open>willExpire()\<close> is true exactly
  when at least one invocation has started: false for the new handler, true from the
  start of the first invocation on. A dispatcher that checks \<^verbatim>\<open>willExpire()\<close> before
  each invocation, and unregisters the handler when it is true, starts two invocations
  for the first two routes it offers and none after: a third invocation never runs.
\<close>

theorem RouteHandler_budget_2:
  "(handler_times h = 2 \<longrightarrow> (RouteHandler_willExpire h \<longleftrightarrow> 1 \<le> handledCount h)) \<and>
   \<not> RouteHandler_willExpire (new_RouteHandler (Some 2)) \<and>
   RouteHandler_willExpire (fst (RouteHandler_handle_start route (new_RouteHandler (Some 2)))) \<and>
   handledCount (snd (foldl (\<lambda>s r. dispatch r s) (True, new_RouteHandler (Some 2)) routes)) =
     min (length routes) 2"
proof -
  have "handler_times h = 2 \<longrightarrow> (RouteHandler_willExpire h \<longleftrightarrow> 1 \<le> handledCount h)"
    by (auto simp: RouteHandler_willExpire_def)
  moreover have "\<not> RouteHandler_willExpire (new_RouteHandler (Some 2))"
    by (simp add: RouteHandler_willExpire_def new_RouteHandler_def)
  moreover have "RouteHandler_willExpire (fst (RouteHandler_handle_start route (new_RouteHandler (Some 2))))"
    by (simp add: willExpire_started new_RouteHandler_def)
  ultimately show ?thesis using dispatch_budget_2 [of routes] by simp
qed

theorem RouteHandler_budget_2_witness:
  "handler_times (new_RouteHandler (Some 2)) = 2 \<and>
   \<not> RouteHandler_willExpire (new_RouteHandler (Some 2)) \<and>
   handledCount (new_RouteHandler (Some 2)) = 0 \<and>
   handledCount (snd (foldl (\<lambda>s r. dispatch r s) (True, new_RouteHandler (Some 2))
      [new_Route ex_request, new_Route ex_request, new_Route ex_request])) = 2"
proof -
  have h: "handler_times (new_RouteHandler (Some 2)) = 2" "handledCount (new_RouteHandler (Some 2)) = 0"
    by (simp_all add: new_RouteHandler_def)
  note t = RouteHandler_budget_2 [of "new_RouteHandler (Some 2)" "new_Route ex_request"
      "[new_Route ex_request, new_Route ex_request, new_Route ex_request]"]
  from t h show ?thesis by simp
qed

text \<open>
  Claim C4, as stated, fails: with budget 2, \<^verbatim>\<open>willExpire()\<close> is already true when
  only one invocation has started.
\<close>

theorem RouteHandler_budget_2_counterexample:
  "handledCount (fst (RouteHandler_handle_start (new_Route ex_request) (new_RouteHandler (Some 2)))) = 1 \<and>
   RouteHandler_willExpire (fst (RouteHandler_handle_start (new_Route ex_request) (new_RouteHandler (Some 2))))"
  by code_simp

subsection \<open>WebSocketRoute\<close>

text \<open>
  Claim C5, as amended. On a leg whose callback is not installed: a message from the
  server is sent to the page as it came; a close of the page closes the server, and a
  close of the server closes the page, with the same code, reason and clean flag; a
  message from the page is sent to the server as it came when the route is connected
  (\<^verbatim>\<open>connectToServer()\<close> was called), and is dropped when it is not.
\<close>

theorem WebSocketRoute_default_forwarding:
  "(onPageMessage ws = None \<longrightarrow>
      WebSocketRoute_on (MessageFromPage m isBase64) ws =
        (if connected ws then [Channel (SendToServer m isBase64)] else [])) \<and>
   (onServerMessage ws = None \<longrightarrow>
      WebSocketRoute_on (MessageFromServer m isBase64) ws = [Channel (SendToPage m isBase64)]) \<and>
   (onPageClose ws = None \<longrightarrow>
      WebSocketRoute_on (ClosePageEvent code reason wasClean) ws =
        [Channel (CloseServer code reason wasClean)]) \<and>
   (onServerClose ws = None \<longrightarrow>
      WebSocketRoute_on (CloseServerEvent code reason wasClean) ws =
        [Channel (ClosePage code reason wasClean)])"
  by simp

theorem WebSocketRoute_default_forwarding_witness:
  "onPageMessage (new_WebSocketRoute\<lparr>connected := True\<rparr>) = None \<and>
   onServerMessage (new_WebSocketRoute\<lparr>connected := True\<rparr>) = None \<and>
   onPageClose (new_WebSocketRoute\<lparr>connected := True\<rparr>) = None \<and>
   onServerClose (new_WebSocketRoute\<lparr>connected := True\<rparr>) = None \<and>
   WebSocketRoute_connectToServer new_WebSocketRoute =
     Inr ([Channel Connect], new_WebSocketRoute\<lparr>connected := True\<rparr>) \<and>
   WebSocketRoute_on (MessageFromPage ''hi'' False) (new_WebSocketRoute\<lparr>connected := True\<rparr>) =
     [Channel (SendToServer ''hi'' False)] \<and>
   WebSocketRoute_on (MessageFromServer ''AAEC'' True) (new_WebSocketRoute\<lparr>connected := True\<rparr>) =
     [Channel (SendToPage ''AAEC'' True)] \<and>
   WebSocketRoute_on (ClosePageEvent (Some 1000) (Some ''bye'') True) (new_WebSocketRoute\<lparr>connected := True\<rparr>) =
     [Channel (CloseServer (Some 1000) (Some ''bye'') True)] \<and>
   WebSocketRoute_on (CloseServerEvent (Some 1001) None False) (new_WebSocketRoute\<lparr>connected := True\<rparr>) =
     [Channel (ClosePage (Some 1001) None False)]"
proof -
  let ?ws = "new_WebSocketRoute\<lparr>connected := True\<rparr>"
  have h: "onPageMessage ?ws = None" "onServerMessage ?ws = None" "onPageClose ?ws = None"
    "onServerClose ?ws = None" "connected ?ws"
    by (simp_all add: new_WebSocketRoute_def)
  have c: "WebSocketRoute_connectToServer new_WebSocketRoute = Inr ([Channel Connect], ?ws)"
    by (simp add: WebSocketRoute_connectToServer_def new_WebSocketRoute_def)
  from WebSocketRoute_default_forwarding [of ?ws "''hi''" False "Some 1000" "Some ''bye''" True] h
  have a: "WebSocketRoute_on (MessageFromPage ''hi'' False) ?ws = [Channel (SendToServer ''hi'' False)]"
    "WebSocketRoute_on (ClosePageEvent (Some 1000) (Some ''bye'') True) ?ws =
       [Channel (CloseServer (Some 1000) (Some ''bye'') True)]"
    by simp_all
  from WebSocketRoute_default_forwarding [of ?ws "''AAEC''" True "Some 1001" None False] h
  have b: "WebSocketRoute_on (MessageFromServer ''AAEC'' True) ?ws = [Channel (SendToPage ''AAEC'' True)]"
    "WebSocketRoute_on (CloseServerEvent (Some 1001) None False) ?ws =
       [Channel (ClosePage (Some 1001) None False)]"
    by simp_all
  from h(1-4) c a b show ?thesis by (intro conjI)
qed

text \<open>
  Claim C5, as stated, fails: on a new route (no callback installed, not connected) a
  message from the page is not sent to the server.
\<close>

theorem WebSocketRoute_default_forwarding_counterexample:
  "onPageMessage new_WebSocketRoute = None \<and>
   WebSocketRoute_on (MessageFromPage ''hi'' False) new_WebSocketRoute = []"
  by (simp add: new_WebSocketRoute_def)

text \<open>
  Claim C9. \<^verbatim>\<open>send\<close> on either leg puts a buffer on the channel base64-encoded, with
  \<^verbatim>\<open>isBase64\<close> set, and a string as it is, with \<^verbatim>\<open>isBase64\<close> unset. When what was put
  on the channel arrives as a message event on a leg with a callback, the callback gets
  the very buffer, or the very string, that was sent: decoding the base64 encoding of a
  buffer gives the buffer back.
\<close>

theorem WebSocketRoute_binary_roundtrip:
  "WebSocketRoute_send (Binary b) = [Channel (SendToPage (base64_encode b) True)] \<and>
   server_send (Binary b) = [Channel (SendToServer (base64_encode b) True)] \<and>
   WebSocketRoute_send (Text t) = [Channel (SendToPage t False)] \<and>
   server_send (Text t) = [Channel (SendToServer t False)] \<and>
   base64_decode (base64_encode b) = b \<and>
   (onPageMessage ws = Some h \<longrightarrow>
      WebSocketRoute_on (MessageFromPage (base64_encode b) True) ws = [CallMessage h (Binary b)] \<and>
      WebSocketRoute_on (MessageFromPage t False) ws = [CallMessage h (Text t)]) \<and>
   (onServerMessage ws = Some h' \<longrightarrow>
      WebSocketRoute_on (MessageFromServer (base64_encode b) True) ws = [CallMessage h' (Binary b)] \<and>
      WebSocketRoute_on (MessageFromServer t False) ws = [CallMessage h' (Text t)])"
  by (simp add: decode_message_def base64_roundtrip)

theorem WebSocketRoute_binary_roundtrip_witness:
  "WebSocketRoute_send (Binary [0, 1, 2]) = [Channel (SendToPage ''AAEC'' True)] \<and>
   base64_decode ''AAEC'' = [0, 1, 2] \<and>
   onPageMessage (WebSocketRoute_onMessage 7 new_WebSocketRoute) = Some 7 \<and>
   WebSocketRoute_on (MessageFromPage ''AAEC'' True) (WebSocketRoute_onMessage 7 new_WebSocketRoute) =
     [CallMessage 7 (Binary [0, 1, 2])] \<and>
   WebSocketRoute_on (MessageFromPage ''hello'' False) (WebSocketRoute_onMessage 7 new_WebSocketRoute) =
     [CallMessage 7 (Text ''hello'')] \<and>
   onServerMessage (server_onMessage 8 new_WebSocketRoute) = Some 8 \<and>
   WebSocketRoute_on (MessageFromServer ''AAEC'' True) (server_onMessage 8 new_WebSocketRoute) =
     [CallMessage 8 (Binary [0, 1, 2])]"
proof -
  have e: "base64_encode [0, 1, 2] = ''AAEC''" by code_simp
  have h: "onPageMessage (WebSocketRoute_onMessage 7 new_WebSocketRoute) = Some 7"
    "onServerMessage (server_onMessage 8 new_WebSocketRoute) = Some 8"
    by (simp_all add: WebSocketRoute_onMessage_def server_onMessage_def)
  note p = WebSocketRoute_binary_roundtrip [of "[0, 1, 2]" "''hello''"
      "WebSocketRoute_onMessage 7 new_WebSocketRoute" 7 8, unfolded e]
  note s = WebSocketRoute_binary_roundtrip [of "[0, 1, 2]" "''hello''"
      "server_onMessage 8 new_WebSocketRoute" 7 8, unfolded e]
  from p s h show ?thesis by simp
qed

end
